theory Spec2Isabelle
  imports Main "HOL-Library.Word"
begin

section \<open>DCF77Decoder.h: constants and data\<close>

text \<open>
  The decoder is written for the Arduino Uno R3 (both source files say so). With avr-gcc
  an \<open>int\<close> has 16 bits and a plain \<open>char\<close> is a signed byte. C \<open>int\<close> values are modelled
  as HOL integers; a signed overflow (undefined in C) and an array access outside the
  array are results of their own, so that no step of the model hides them.
\<close>

datatype fault = Out_of_bounds | Signed_overflow

definition INT_MAX :: int where
  "INT_MAX = 32767"

definition EDGE_RISING :: int where
  "EDGE_RISING = 1"

definition EDGE_FALLING :: int where
  "EDGE_FALLING = 0"

definition P0 :: int where
  "P0 = 100"

definition P1 :: int where
  "P1 = 200"

definition JITTER :: int where
  "JITTER = 35"

definition MIN_SYNCGAP :: int where
  "MIN_SYNCGAP = 1800"

definition MAX_SYNCGAP :: int where
  "MAX_SYNCGAP = 1900"

text \<open>The caller's \<open>struct tm\<close>.\<close>

record tm =
  tm_sec :: int
  tm_min :: int
  tm_hour :: int
  tm_mday :: int
  tm_mon :: int
  tm_year :: int
  tm_wday :: int
  tm_yday :: int
  tm_isdst :: int

text \<open>
  The members of class \<open>DCF77Decoder\<close> (their leading underscore dropped). \<open>dcf77Time\<close>
  is the referenced \<open>struct tm\<close> of the caller, \<open>indicator\<close> the level of the indicator
  pin and \<open>serial\<close> everything written to \<open>Serial\<close> so far.
\<close>

record decoder =
  edgeMode :: int
  newEdge :: bool
  startPulse :: "32 word"
  endPulse :: "32 word"
  widthPulse :: int
  widthPause :: int
  synchronized :: bool
  verbose :: bool
  seconds :: int
  z12 :: int
  dcf77Bits :: "char list"
  dcf77TimeString :: string
  dcf77Time :: tm
  indicator :: bool
  serial :: string

definition bcdValue :: "int list" where
  "bcdValue = [1, 2, 4, 8, 10, 20, 40, 80]"

definition weekDay :: "string list" where
  "weekDay = [''--'', ''Mo'', ''Di'', ''Mi'', ''Do'', ''Fr'', ''Sa'', ''So'']"

definition timeZone :: "string list" where
  "timeZone = [''---'', ''MESZ'', ''MEZ'']"

definition template_bits :: "char list" where
  "template_bits =
     ''0--Meteo-Data--RazZA|mmmmmmmPhhhhhhPddddddwwwMMMMMyyyyyyyyP_'' @ [CHR 0x00, CHR 0x00]"

definition zero_tm :: tm where
  "zero_tm = \<lparr>tm_sec = 0, tm_min = 0, tm_hour = 0, tm_mday = 0, tm_mon = 0, tm_year = 0,
     tm_wday = 0, tm_yday = 0, tm_isdst = 0\<rparr>"

text \<open>The decoder as the constructor and the member initialisers leave it.\<close>

definition init_decoder :: "tm \<Rightarrow> decoder" where
  "init_decoder t = \<lparr>edgeMode = - 1, newEdge = False, startPulse = 0, endPulse = 0,
     widthPulse = 0, widthPause = 0, synchronized = False, verbose = True, seconds = 0,
     z12 = 0, dcf77Bits = template_bits, dcf77TimeString = [], dcf77Time = t,
     indicator = False, serial = []\<rparr>"

section \<open>C arithmetic and output\<close>

text \<open>Conversion of a \<open>uint32_t\<close> to \<open>int\<close>: the low 16 bits, read as two's complement.\<close>

definition int_of_u32 :: "32 word \<Rightarrow> int" where
  "int_of_u32 w = (let m = uint w mod 65536 in if m < 32768 then m else m - 65536)"

text \<open>\<open>(int) c\<close> for a signed \<open>char\<close>.\<close>

definition int_of_char :: "char \<Rightarrow> int" where
  "int_of_char c = (let v = of_char c in if v < 128 then v else v - 256)"

text \<open>The remainder of C, whose sign follows the dividend.\<close>

definition c_rem :: "int \<Rightarrow> int \<Rightarrow> int" where
  "c_rem a b = sgn a * (\<bar>a\<bar> mod \<bar>b\<bar>)"

text \<open>\<open>x++\<close> on an \<open>int\<close>.\<close>

definition incr :: "int \<Rightarrow> fault + int" where
  "incr x = (if x = INT_MAX then Inl Signed_overflow else Inr (x + 1))"

definition serial_print :: "string \<Rightarrow> decoder \<Rightarrow> decoder" where
  "serial_print s st = st\<lparr>serial := serial st @ s\<rparr>"

definition serial_println :: "string \<Rightarrow> decoder \<Rightarrow> decoder" where
  "serial_println s st = st\<lparr>serial := serial st @ s @ [CHR 0x0D, CHR 0x0A]\<rparr>"

fun dec_digits :: "nat \<Rightarrow> string" where
  "dec_digits n =
     (if n < 10 then [''0123456789'' ! n]
      else dec_digits (n div 10) @ [''0123456789'' ! (n mod 10)])"

declare dec_digits.simps [simp del]

text \<open>The conversions \<open>%Ns\<close> and \<open>%02d\<close> of \<open>snprintf\<close>.\<close>

definition fmt_s :: "nat \<Rightarrow> string \<Rightarrow> string" where
  "fmt_s w s = replicate (w - length s) CHR '' '' @ s"

definition fmt_02d :: "int \<Rightarrow> string" where
  "fmt_02d n =
     (if n < 0 then CHR ''-'' # dec_digits (nat (- n))
      else let d = dec_digits (nat n) in replicate (2 - length d) CHR ''0'' @ d)"

section \<open>DCF77Decoder.cpp\<close>

definition set_tm_sec :: "int \<Rightarrow> decoder \<Rightarrow> decoder" where
  "set_tm_sec v st = st\<lparr>dcf77Time := (dcf77Time st)\<lparr>tm_sec := v\<rparr>\<rparr>"

text \<open>\<open>_dcf77Bits[_seconds] = c\<close>: the index is the second counter, unchecked in the source.\<close>

definition store_bit :: "char \<Rightarrow> decoder \<Rightarrow> fault + decoder" where
  "store_bit c st =
     (if 0 \<le> seconds st \<and> seconds st < int (length (dcf77Bits st))
      then Inr (st\<lparr>dcf77Bits := (dcf77Bits st)[nat (seconds st) := c]\<rparr>)
      else Inl Out_of_bounds)"

text \<open>The block \<open>if (_edgeMode == EDGE_FALLING)\<close> of \<open>collectBits\<close>; \<open>now\<close> is \<open>millis()\<close>.\<close>

definition pulse_ends :: "decoder \<Rightarrow> 32 word \<Rightarrow> fault + bool \<times> decoder" where
  "pulse_ends st now =
     (if edgeMode st = EDGE_FALLING then
        let st1 = st\<lparr>endPulse := now, widthPulse := int_of_u32 (now - startPulse st)\<rparr> in
        if synchronized st1 then
          case (if widthPulse st1 > P0 - JITTER \<and> widthPulse st1 < P0 + JITTER
                then (case store_bit CHR ''0'' st1 of
                        Inl e \<Rightarrow> Inl e
                      | Inr s \<Rightarrow> Inr (if verbose s then serial_print ''0'' s else s))
                else Inr st1) of
            Inl e \<Rightarrow> Inl e
          | Inr st2 \<Rightarrow>
             (case (if widthPulse st2 > P1 - JITTER \<and> widthPulse st2 < P1 + JITTER
                    then (case store_bit CHR ''1'' st2 of
                            Inl e \<Rightarrow> Inl e
                          | Inr s \<Rightarrow> Inr (if verbose s then serial_print ''1'' s else s))
                    else Inr st2) of
                Inl e \<Rightarrow> Inl e
              | Inr st3 \<Rightarrow>
                 (let st4 = st3\<lparr>indicator := \<not> indicator st3\<rparr> in
                  case incr (seconds st4) of
                    Inl e \<Rightarrow> Inl e
                  | Inr n \<Rightarrow>
                     (case incr (tm_sec (dcf77Time st4)) of
                        Inl e \<Rightarrow> Inl e
                      | Inr m \<Rightarrow> Inr (False, set_tm_sec m (st4\<lparr>seconds := n\<rparr>)))))
        else Inr (False, if verbose st1 then serial_print ''*'' st1 else st1)
      else Inr (False, st))"

definition collectBits :: "decoder \<Rightarrow> 32 word \<Rightarrow> fault + bool \<times> decoder" where
  "collectBits st now =
     (if newEdge st then
        let st1 = st\<lparr>newEdge := False\<rparr> in
        if edgeMode st1 = EDGE_RISING then
          let st2 = st1\<lparr>startPulse := now, widthPause := int_of_u32 (now - endPulse st1)\<rparr> in
          if widthPause st2 > MIN_SYNCGAP - JITTER \<and> widthPause st2 < MAX_SYNCGAP + JITTER
          then Inr (True, set_tm_sec 0 (st2\<lparr>synchronized := True, seconds := 0\<rparr>))
          else pulse_ends st2 now
        else pulse_ends st1 now
      else Inr (False, st))"

text \<open>The loop of \<open>getValueFromBits\<close>, from index \<open>i\<close> on.\<close>

function bcd_loop :: "char list \<Rightarrow> nat \<Rightarrow> nat \<Rightarrow> nat \<Rightarrow> int \<Rightarrow> int" where
  "bcd_loop bits firstBit i hi val =
     (if i < hi
      then bcd_loop bits firstBit (i + 1) hi
             (val + (int_of_char (bits ! i) - int_of_char CHR ''0'') * bcdValue ! (i - firstBit))
      else val)"
  by pat_completeness auto
termination
  by (relation "measure (\<lambda>(bits, firstBit, i, hi, val). hi - i)") auto

declare bcd_loop.simps [simp del]

definition getValueFromBits :: "decoder \<Rightarrow> nat \<Rightarrow> nat \<Rightarrow> int" where
  "getValueFromBits st firstBit nbrBits =
     bcd_loop (dcf77Bits st) firstBit firstBit (firstBit + nbrBits) 0"

text \<open>One \<open>for\<close> loop of \<open>parityOK\<close>, adding to the running \<open>sum\<close> (here \<open>tot\<close>).\<close>

function parity_loop :: "char list \<Rightarrow> nat \<Rightarrow> nat \<Rightarrow> int \<Rightarrow> int" where
  "parity_loop bits i hi tot =
     (if i < hi
      then parity_loop bits (i + 1) hi (tot + (int_of_char (bits ! i) - int_of_char CHR ''0''))
      else tot)"
  by pat_completeness auto
termination
  by (relation "measure (\<lambda>(bits, i, hi, tot). hi - i)") auto

declare parity_loop.simps [simp del]

definition parityOK :: "decoder \<Rightarrow> bool" where
  "parityOK st =
     (let tot = 0;
          tot = parity_loop (dcf77Bits st) 21 29 tot;
          tot = parity_loop (dcf77Bits st) 29 36 tot;
          tot = parity_loop (dcf77Bits st) 36 59 tot
      in if c_rem tot 2 = 0 then True else False)"

text \<open>
  \<open>snprintf\<close> with \<open>DCF77TIMEFORMAT\<close> into the 40 bytes of \<open>_dcf77TimeString\<close>: at most 39
  characters are kept.
\<close>

definition format_time :: "string \<Rightarrow> int \<Rightarrow> int \<Rightarrow> int \<Rightarrow> int \<Rightarrow> int \<Rightarrow> int \<Rightarrow> string \<Rightarrow> string" where
  "format_time wd y mo d h mi s tz =
     take 39 (fmt_s 3 wd @ '' 20'' @ fmt_02d y @ ''-'' @ fmt_02d mo @ ''-'' @ fmt_02d d @ '' ''
        @ fmt_02d h @ '':'' @ fmt_02d mi @ '':'' @ fmt_02d s @ '' '' @ fmt_s 4 tz @ '' DCF77'')"

definition decodeBits :: "decoder \<Rightarrow> fault + decoder" where
  "decodeBits st =
     (let val = getValueFromBits st 17 2;
          st1 = (if val = 2
                 then st\<lparr>z12 := val, dcf77Time := (dcf77Time st)\<lparr>tm_isdst := 0\<rparr>\<rparr>
                 else if val = 1
                 then st\<lparr>z12 := 1, dcf77Time := (dcf77Time st)\<lparr>tm_isdst := 1\<rparr>\<rparr>
                 else st\<lparr>z12 := 0, dcf77Time := (dcf77Time st)\<lparr>tm_isdst := - 1\<rparr>\<rparr>);
          t = (dcf77Time st1)\<lparr>
                tm_sec := 0,
                tm_min := getValueFromBits st1 21 7,
                tm_hour := getValueFromBits st1 29 6,
                tm_mday := getValueFromBits st1 36 6,
                tm_wday := getValueFromBits st1 42 3,
                tm_mon := getValueFromBits st1 45 5 - 1,
                tm_year := getValueFromBits st1 50 8 + 100\<rparr>;
          st2 = st1\<lparr>dcf77Time := t\<rparr>
      in if 0 \<le> tm_wday t \<and> tm_wday t < int (length weekDay)
            \<and> 0 \<le> z12 st2 \<and> z12 st2 < int (length timeZone)
         then Inr (st2\<lparr>dcf77TimeString :=
                 format_time (weekDay ! nat (tm_wday t)) (tm_year t - 100) (tm_mon t + 1)
                   (tm_mday t) (tm_hour t) (tm_min t) (tm_sec t) (timeZone ! nat (z12 st2))\<rparr>)
         else Inl Out_of_bounds)"

definition handleInterrupt :: "decoder \<Rightarrow> int \<Rightarrow> decoder" where
  "handleInterrupt st level = st\<lparr>edgeMode := level, newEdge := True\<rparr>"

definition printDateTime :: "decoder \<Rightarrow> decoder" where
  "printDateTime st = serial_println (dcf77TimeString st) st"

definition setVerbose :: "decoder \<Rightarrow> bool \<Rightarrow> decoder" where
  "setVerbose st v = st\<lparr>verbose := v\<rparr>"

definition isReady :: "decoder \<Rightarrow> bool" where
  "isReady st = (if dcf77Bits st ! 58 = CHR ''P'' then False else True)"

definition parity_failed_message :: string where
  "parity_failed_message =
     '' Parity check failed, continue collecting time info...'' @ [CHR 0x0D, CHR 0x0A]
     @ ''012345678901234567890123456789012345678901234567890123456789 '' @ [CHR 0x0D, CHR 0x0A]
     @ ''0--Meteo-Data--RazZA|mmmmmmmPhhhhhhPddddddwwwMMMMMyyyyyyyyP_ '' @ [CHR 0x0D, CHR 0x0A]"

definition loop :: "decoder \<Rightarrow> 32 word \<Rightarrow> fault + decoder" where
  "loop st now =
     (case collectBits st now of
        Inl e \<Rightarrow> Inl e
      | Inr (r, st1) \<Rightarrow>
         if r = True then
           if parityOK st1 then
             (case decodeBits st1 of
                Inl e \<Rightarrow> Inl e
              | Inr st2 \<Rightarrow> Inr (if verbose st2 then printDateTime st2 else st2))
           else Inr (serial_print parity_failed_message st1)
         else Inr st1)"

text \<open>
  What happens to the decoder over time: the interrupt handler runs on an edge with the
  level it reads from the input pin, and the sketch polls \<open>loop\<close> at some \<open>millis()\<close>.
\<close>

datatype event = Edge int | Poll "32 word"

fun step :: "decoder \<Rightarrow> event \<Rightarrow> fault + decoder" where
  "step st (Edge level) = Inr (handleInterrupt st level)"
| "step st (Poll now) = loop st now"

fun run :: "decoder \<Rightarrow> event list \<Rightarrow> fault + decoder" where
  "run st [] = Inr st"
| "run st (e # es) = (case step st e of Inl f \<Rightarrow> Inl f | Inr st' \<Rightarrow> run st' es)"

section \<open>Notions used to state the properties\<close>

text \<open>A filled buffer: the 62 bytes of the array, with a received bit in each of the slots 0..58.\<close>

definition is_bit :: "char \<Rightarrow> bool" where
  "is_bit c = (c = CHR ''0'' \<or> c = CHR ''1'')"

definition filled :: "char list \<Rightarrow> bool" where
  "filled bits = (length bits = 62 \<and> list_all is_bit (take 59 bits))"

text \<open>The value of a stored character as \<open>parityOK\<close> and \<open>getValueFromBits\<close> read it.\<close>

definition bit_value :: "char \<Rightarrow> int" where
  "bit_value c = int_of_char c - int_of_char CHR ''0''"

text \<open>
  The parity check as the spec words it, to be compared with \<open>parityOK\<close>: three independent
  even-parity checks over minutes [21,29), hours [29,36) and the date group [36,59), each
  parity bit inside its own range.
\<close>

definition range_sum :: "char list \<Rightarrow> nat \<Rightarrow> nat \<Rightarrow> int" where
  "range_sum bits lo hi = sum_list (map (\<lambda>i. bit_value (bits ! i)) [lo..<hi])"

definition spec_parityOK :: "char list \<Rightarrow> bool" where
  "spec_parityOK bits =
     (even (range_sum bits 21 29) \<and> even (range_sum bits 29 36) \<and> even (range_sum bits 36 59))"

text \<open>Flipping the bit stored in one slot.\<close>

definition invert_bit :: "char \<Rightarrow> char" where
  "invert_bit c = (if c = CHR ''0'' then CHR ''1'' else CHR ''0'')"

definition flip_at :: "nat \<Rightarrow> decoder \<Rightarrow> decoder" where
  "flip_at i st = st\<lparr>dcf77Bits := (dcf77Bits st)[i := invert_bit (dcf77Bits st ! i)]\<rparr>"

text \<open>
  The example of dcf77RadioClock.cpp, as the buffer holds it after that minute: the 59
  received bits, then the untouched rest of the array.
\<close>

definition example_bits :: "char list" where
  "example_bits =
     ''01001101001001000010110011100100100010100001111000011010001'' @ ''_'' @ [CHR 0x00, CHR 0x00]"

definition example_decoder :: decoder where
  "example_decoder = (init_decoder zero_tm)\<lparr>dcf77Bits := example_bits\<rparr>"

text \<open>The example with one wrong bit in the minutes (slot 21) and one in the hours (slot 29).\<close>

definition two_errors_bits :: "char list" where
  "two_errors_bits =
     ''01001101001001000010100011100000100010100001111000011010001'' @ ''_'' @ [CHR 0x00, CHR 0x00]"

definition two_errors_decoder :: decoder where
  "two_errors_decoder = (init_decoder zero_tm)\<lparr>dcf77Bits := two_errors_bits\<rparr>"

text \<open>The example with one wrong bit in the minutes only (slot 21).\<close>

definition one_error_bits :: "char list" where
  "one_error_bits =
     ''01001101001001000010100011100100100010100001111000011010001'' @ ''_'' @ [CHR 0x00, CHR 0x00]"

text \<open>
  A telegram for Sunday 2016-03-06 09:39: the example with day of month 6, weekday 7 and
  the date parity bit adjusted.
\<close>

definition sunday_bits :: "char list" where
  "sunday_bits =
     ''01001101001001000010110011100100100001100011111000011010000'' @ ''_'' @ [CHR 0x00, CHR 0x00]"

definition sunday_decoder :: decoder where
  "sunday_decoder = (init_decoder zero_tm)\<lparr>dcf77Bits := sunday_bits\<rparr>"

text \<open>A synchronised decoder at second \<open>n\<close> of the minute, a pulse having begun at 0 ms.\<close>

definition pulse_pending :: "int \<Rightarrow> decoder" where
  "pulse_pending n =
     (init_decoder zero_tm)\<lparr>edgeMode := EDGE_FALLING, newEdge := True, synchronized := True,
        seconds := n, verbose := False\<rparr>"

text \<open>A decoder that is not yet synchronised, a pause having begun at 0 ms.\<close>

definition pause_pending :: decoder where
  "pause_pending = (init_decoder zero_tm)\<lparr>edgeMode := EDGE_RISING, newEdge := True\<rparr>"

text \<open>
  A decoder holding the time of the example, whose next minute arrived with a wrong bit,
  at the rising edge that ends the pause of that minute.
\<close>

definition stale_decoder :: decoder where
  "stale_decoder =
     (init_decoder \<lparr>tm_sec = 59, tm_min = 39, tm_hour = 9, tm_mday = 5, tm_mon = 2,
          tm_year = 116, tm_wday = 6, tm_yday = 0, tm_isdst = 0\<rparr>)
       \<lparr>edgeMode := EDGE_RISING, newEdge := True, synchronized := True, seconds := 59,
        z12 := 2, dcf77Bits := one_error_bits,
        dcf77TimeString := '' Sa 2016-03-05 09:39:00  MEZ DCF77''\<rparr>"

text \<open>
  The one case in which \<open>loop\<close> calls \<open>decodeBits\<close>: a poll at which \<open>collectBits\<close> reports
  the start of a minute and \<open>parityOK\<close> accepts the buffer.
\<close>

fun valid_minute :: "decoder \<Rightarrow> event \<Rightarrow> bool" where
  "valid_minute st (Edge level) = False"
| "valid_minute st (Poll now) =
     (case collectBits st now of Inl e \<Rightarrow> False | Inr (r, st1) \<Rightarrow> r \<and> parityOK st1)"

text \<open>A sequence of events, run from \<open>st\<close>, in which no minute is validated.\<close>

fun no_valid_minute :: "decoder \<Rightarrow> event list \<Rightarrow> bool" where
  "no_valid_minute st [] = True"
| "no_valid_minute st (e # es) =
     (\<not> valid_minute st e
      \<and> (case step st e of Inl f \<Rightarrow> True | Inr st' \<Rightarrow> no_valid_minute st' es))"

text \<open>
  A pulse of 100 ms whose rising edge is polled at \<open>t\<close>: the interrupt and the poll of each
  of its two edges. In a train the pulses follow each other every 1000 ms.
\<close>

definition pulse :: "32 word \<Rightarrow> event list" where
  "pulse t = [Edge 1, Poll t, Edge 0, Poll (t + 100)]"

fun pulse_train :: "nat \<Rightarrow> 32 word \<Rightarrow> event list" where
  "pulse_train 0 t = []"
| "pulse_train (Suc n) t = pulse t @ pulse_train n (t + 1000)"

section \<open>The parity check\<close>

lemma c_rem_2_iff_even: "c_rem s 2 = 0 \<longleftrightarrow> even s"
  by (auto simp: c_rem_def sgn_if)

lemma parity_loop_sum:
  "parity_loop bits i hi s = s + (\<Sum>k = i..<hi. bit_value (bits ! k))"
proof (induction bits i hi s rule: parity_loop.induct)
  case (1 bits i hi s)
  show ?case
  proof (cases "i < hi")
    case True
    with "1" show ?thesis
      by (subst parity_loop.simps) (simp add: sum.atLeast_Suc_lessThan bit_value_def add.assoc)
  next
    case False
    then show ?thesis by (subst parity_loop.simps) simp
  qed
qed

lemma parityOK_iff_total_even:
  "parityOK st \<longleftrightarrow> even (\<Sum>k = 21..<59. bit_value (dcf77Bits st ! k))"
proof -
  let ?f = "\<lambda>k. bit_value (dcf77Bits st ! k)"
  have "sum ?f {21..<29} + sum ?f {29..<36} = sum ?f {21..<36}"
    by (rule sum.atLeastLessThan_concat) simp_all
  moreover have "sum ?f {21..<36} + sum ?f {36..<59} = sum ?f {21..<59}"
    by (rule sum.atLeastLessThan_concat) simp_all
  ultimately have "sum ?f {21..<59} = sum ?f {21..<29} + sum ?f {29..<36} + sum ?f {36..<59}"
    by simp
  then show ?thesis
    by (simp add: parityOK_def parity_loop_sum c_rem_2_iff_even Let_def)
qed

lemma filled_nth: "filled bits \<Longrightarrow> i < 59 \<Longrightarrow> bits ! i = CHR ''0'' \<or> bits ! i = CHR ''1''"
  by (auto simp: filled_def list_all_length is_bit_def)

lemma bit_value_0: "bit_value CHR ''0'' = 0"
  by (simp add: bit_value_def)

lemma bit_value_1: "bit_value CHR ''1'' = 1"
  by (simp add: bit_value_def int_of_char_def)

lemma bit_value_flip: "is_bit c \<Longrightarrow> odd (bit_value (invert_bit c) + bit_value c)"
  by (auto simp: is_bit_def invert_bit_def bit_value_0 bit_value_1)

lemma example_filled: "filled example_bits"
  by (simp add: filled_def example_bits_def is_bit_def)

lemma example_parity: "parityOK example_decoder"
  by (simp add: parityOK_def example_decoder_def example_bits_def init_decoder_def int_of_char_def c_rem_def parity_loop.simps)

text \<open>
  C1. The claim: for every filled buffer, parity validation succeeds if and only if each of
  the ranges [21,29), [29,36) and [36,59) has an even sum of bits on its own. \<open>parityOK\<close> adds
  the three ranges into one sum and tests that sum only: on the example telegram with one
  wrong bit in the minutes and one in the hours, both of these ranges have an odd sum, the
  three independent checks fail, and \<open>parityOK\<close> still accepts the buffer.
\<close>

theorem two_field_error_accepted:
  "filled (dcf77Bits two_errors_decoder) \<and> parityOK two_errors_decoder
   \<and> odd (range_sum (dcf77Bits two_errors_decoder) 21 29)
   \<and> odd (range_sum (dcf77Bits two_errors_decoder) 29 36)
   \<and> \<not> spec_parityOK (dcf77Bits two_errors_decoder)"
  by (simp add: two_errors_decoder_def two_errors_bits_def init_decoder_def filled_def is_bit_def
      parityOK_def spec_parityOK_def range_sum_def bit_value_def int_of_char_def c_rem_def upt_rec parity_loop.simps)

text \<open>
  C8. For every filled buffer that \<open>parityOK\<close> accepts, flipping the bit of a single slot
  in [21,59), the union of the three parity-protected ranges, gives a buffer that \<open>parityOK\<close>
  rejects.
\<close>

theorem single_flip_rejected:
  assumes f: "filled (dcf77Bits st)" and ok: "parityOK st" and i: "21 \<le> i" "i < 59"
  shows "\<not> parityOK (flip_at i st)"
proof -
  let ?b = "dcf77Bits st"
  let ?f = "\<lambda>k. bit_value (?b ! k)"
  let ?g = "\<lambda>k. bit_value (dcf77Bits (flip_at i st) ! k)"
  have len: "i < length ?b" using f i by (simp add: filled_def)
  have mem: "i \<in> {21..<59}" using i by simp
  have gi: "?g i = bit_value (invert_bit (?b ! i))"
    using len by (simp add: flip_at_def)
  have gk: "\<And>k. k \<noteq> i \<Longrightarrow> ?g k = ?f k"
    by (simp add: flip_at_def)
  have rest: "sum ?g ({21..<59} - {i}) = sum ?f ({21..<59} - {i})"
    by (rule sum.cong) (auto simp: gk)
  have sg: "sum ?g {21..<59} = ?g i + sum ?g ({21..<59} - {i})"
    using mem by (simp add: sum.remove)
  have sf: "sum ?f {21..<59} = ?f i + sum ?f ({21..<59} - {i})"
    using mem by (simp add: sum.remove)
  have "is_bit (?b ! i)" using filled_nth [OF f i(2)] by (simp add: is_bit_def)
  then have "odd (?g i + ?f i)" unfolding gi by (rule bit_value_flip)
  moreover have "even (sum ?f {21..<59})"
    using ok by (simp add: parityOK_iff_total_even)
  ultimately have "odd (sum ?g {21..<59})"
    unfolding sg sf rest by auto
  then show ?thesis by (simp add: parityOK_iff_total_even)
qed

theorem single_flip_rejected_witness:
  "filled (dcf77Bits example_decoder) \<and> parityOK example_decoder \<and> (21::nat) \<le> 30 \<and> (30::nat) < 59
   \<and> \<not> parityOK (flip_at 30 example_decoder)"
proof -
  have f: "filled (dcf77Bits example_decoder)"
    by (simp add: example_decoder_def example_filled)
  show ?thesis
    using single_flip_rejected [OF f example_parity, of 30] f example_parity by simp
qed

section \<open>Edges: synchronisation and bit collection\<close>

text \<open>Which bytes of the buffer one call of \<open>collectBits\<close> can change.\<close>

lemma pulse_ends_bits:
  assumes "pulse_ends st now = Inr (r, st')"
  shows "dcf77Bits st' = dcf77Bits st
     \<or> (0 \<le> seconds st \<and> seconds st < int (length (dcf77Bits st))
        \<and> (dcf77Bits st' = (dcf77Bits st)[nat (seconds st) := CHR ''0'']
           \<or> dcf77Bits st' = (dcf77Bits st)[nat (seconds st) := CHR ''1'']))"
  using assms
  by (auto simp: pulse_ends_def store_bit_def incr_def Let_def serial_print_def set_tm_sec_def
      split: if_splits sum.splits)

lemma collectBits_bits:
  assumes "collectBits st now = Inr (r, st')"
  shows "dcf77Bits st' = dcf77Bits st
     \<or> (0 \<le> seconds st \<and> seconds st < int (length (dcf77Bits st))
        \<and> (dcf77Bits st' = (dcf77Bits st)[nat (seconds st) := CHR ''0'']
           \<or> dcf77Bits st' = (dcf77Bits st)[nat (seconds st) := CHR ''1'']))"
proof (cases "newEdge st")
  case False
  with assms show ?thesis by (simp add: collectBits_def)
next
  case True
  show ?thesis
  proof (cases "edgeMode st = EDGE_RISING")
    case rising: True
    show ?thesis
    proof (cases "int_of_u32 (now - endPulse st) > MIN_SYNCGAP - JITTER
        \<and> int_of_u32 (now - endPulse st) < MAX_SYNCGAP + JITTER")
      case True
      with assms \<open>newEdge st\<close> rising show ?thesis
        by (auto simp: collectBits_def Let_def set_tm_sec_def)
    next
      case False
      with assms \<open>newEdge st\<close> rising
      have "pulse_ends (st\<lparr>newEdge := False, startPulse := now,
          widthPause := int_of_u32 (now - endPulse st)\<rparr>) now = Inr (r, st')"
        by (auto simp: collectBits_def Let_def)
      from pulse_ends_bits [OF this] show ?thesis by simp
    qed
  next
    case False
    with assms \<open>newEdge st\<close>
    have "pulse_ends (st\<lparr>newEdge := False\<rparr>) now = Inr (r, st')"
      by (auto simp: collectBits_def Let_def)
    from pulse_ends_bits [OF this] show ?thesis by simp
  qed
qed

text \<open>A rising edge: the pause that ends is measured and compared with the sync gap.\<close>

lemma pause_end:
  assumes "newEdge st" and "edgeMode st = EDGE_RISING" and "g = int_of_u32 (now - endPulse st)"
  shows "collectBits st now =
     (if 1765 < g \<and> g < 1935
      then Inr (True, st\<lparr>newEdge := False, startPulse := now, widthPause := g,
             synchronized := True, seconds := 0, dcf77Time := (dcf77Time st)\<lparr>tm_sec := 0\<rparr>\<rparr>)
      else Inr (False, st\<lparr>newEdge := False, startPulse := now, widthPause := g\<rparr>))"
  using assms
  by (simp add: collectBits_def pulse_ends_def Let_def set_tm_sec_def MIN_SYNCGAP_def
      MAX_SYNCGAP_def JITTER_def EDGE_RISING_def EDGE_FALLING_def)

text \<open>
  C6. The claim: a minute start is detected if and only if the gap \<open>g\<close> is in [1765,1935],
  boundaries included. The source compares with \<open><\<close> and \<open>>\<close>, so the boundaries are
  excluded. What holds: at a rising edge the sync is detected if and only if
  1765 < g < 1935; then \<open>synchronized\<close> is set, the second counter and \<open>tm_sec\<close> are reset
  to 0 and \<open>collectBits\<close> returns true; otherwise it returns false and only the edge flag
  and the measurement (\<open>startPulse\<close>, \<open>widthPause\<close>) change.
\<close>

theorem sync_gap_open_interval:
  assumes "newEdge st" and "edgeMode st = EDGE_RISING" and "g = int_of_u32 (now - endPulse st)"
  shows "collectBits st now =
     (if 1765 < g \<and> g < 1935
      then Inr (True, st\<lparr>newEdge := False, startPulse := now, widthPause := g,
             synchronized := True, seconds := 0, dcf77Time := (dcf77Time st)\<lparr>tm_sec := 0\<rparr>\<rparr>)
      else Inr (False, st\<lparr>newEdge := False, startPulse := now, widthPause := g\<rparr>))"
  using assms by (rule pause_end)

theorem sync_gap_open_interval_witness:
  "newEdge pause_pending \<and> edgeMode pause_pending = EDGE_RISING
   \<and> collectBits pause_pending 1800 =
     Inr (True, pause_pending\<lparr>newEdge := False, startPulse := 1800, widthPause := 1800,
             synchronized := True, seconds := 0, dcf77Time := zero_tm\<lparr>tm_sec := 0\<rparr>\<rparr>)"
proof -
  have a: "newEdge pause_pending" "edgeMode pause_pending = EDGE_RISING"
    by (simp_all add: pause_pending_def)
  have g: "(1800::int) = int_of_u32 (1800 - endPulse pause_pending)"
    by (simp add: pause_pending_def init_decoder_def int_of_u32_def)
  have t: "dcf77Time pause_pending = zero_tm"
    by (simp add: pause_pending_def init_decoder_def)
  show ?thesis
    using sync_gap_open_interval [OF a g] a by (simp add: t)
qed

text \<open>A gap of exactly 1765 ms, inside the claimed interval, is not taken as a sync gap.\<close>

theorem sync_gap_1765_counterexample:
  "int_of_u32 (1765 - endPulse pause_pending) = 1765
   \<and> collectBits pause_pending 1765
     = Inr (False, pause_pending\<lparr>newEdge := False, startPulse := 1765, widthPause := 1765\<rparr>)
   \<and> \<not> synchronized (pause_pending\<lparr>newEdge := False, startPulse := 1765, widthPause := 1765\<rparr>)"
  by (simp add: collectBits_def pulse_ends_def Let_def set_tm_sec_def MIN_SYNCGAP_def
      MAX_SYNCGAP_def JITTER_def EDGE_RISING_def EDGE_FALLING_def pause_pending_def
      init_decoder_def int_of_u32_def)

text \<open>A falling edge on a synchronised decoder, the counter inside the array.\<close>

lemma pulse_end_synchronized:
  assumes "newEdge st" and "edgeMode st = EDGE_FALLING" and "synchronized st"
    and "w = int_of_u32 (now - startPulse st)"
    and "0 \<le> seconds st" and "seconds st < int (length (dcf77Bits st))"
    and "seconds st < INT_MAX" and "tm_sec (dcf77Time st) < INT_MAX"
  shows "collectBits st now =
     Inr (False, st\<lparr>newEdge := False, endPulse := now, widthPulse := w,
       dcf77Bits :=
         (if 65 < w \<and> w < 135 then (dcf77Bits st)[nat (seconds st) := CHR ''0'']
          else if 165 < w \<and> w < 235 then (dcf77Bits st)[nat (seconds st) := CHR ''1'']
          else dcf77Bits st),
       serial :=
         (if verbose st \<and> 65 < w \<and> w < 135 then serial st @ ''0''
          else if verbose st \<and> 165 < w \<and> w < 235 then serial st @ ''1''
          else serial st),
       indicator := \<not> indicator st, seconds := seconds st + 1,
       dcf77Time := (dcf77Time st)\<lparr>tm_sec := tm_sec (dcf77Time st) + 1\<rparr>\<rparr>)"
proof -
  have c: "collectBits st now = pulse_ends (st\<lparr>newEdge := False\<rparr>) now"
    using assms(1,2) by (simp add: collectBits_def EDGE_RISING_def EDGE_FALLING_def)
  have i: "incr (seconds st) = Inr (seconds st + 1)"
    "incr (tm_sec (dcf77Time st)) = Inr (tm_sec (dcf77Time st) + 1)"
    using assms(7,8) by (simp_all add: incr_def)
  have s: "\<And>c s. seconds s = seconds st \<Longrightarrow> dcf77Bits s = dcf77Bits st \<Longrightarrow>
      store_bit c s = Inr (s\<lparr>dcf77Bits := (dcf77Bits st)[nat (seconds st) := c]\<rparr>)"
    using assms(5,6) by (simp add: store_bit_def)
  have e: "edgeMode st = EDGE_FALLING" "synchronized st = True"
    using assms(2,3) by simp_all
  consider (zero) "65 < w \<and> w < 135" | (one) "165 < w \<and> w < 235"
    | (none) "\<not> (65 < w \<and> w < 135) \<and> \<not> (165 < w \<and> w < 235)"
    by blast
  then show ?thesis
  proof cases
    case zero
    then have win: "(P0 - JITTER < w \<and> w < P0 + JITTER) = True"
      "(P1 - JITTER < w \<and> w < P1 + JITTER) = False"
      "(65 < w \<and> w < 135) = True"
      by (simp_all add: P0_def P1_def JITTER_def)
    show ?thesis
      unfolding c assms(4) [symmetric]
      by (simp add: pulse_ends_def assms(4) [symmetric] Let_def serial_print_def set_tm_sec_def
          win i s e)
  next
    case one
    then have win: "(P0 - JITTER < w \<and> w < P0 + JITTER) = False"
      "(P1 - JITTER < w \<and> w < P1 + JITTER) = True"
      "(65 < w \<and> w < 135) = False" "(165 < w \<and> w < 235) = True"
      by (simp_all add: P0_def P1_def JITTER_def)
    show ?thesis
      unfolding c assms(4) [symmetric]
      by (simp add: pulse_ends_def assms(4) [symmetric] Let_def serial_print_def set_tm_sec_def
          win i s e)
  next
    case none
    then have win: "(P0 - JITTER < w \<and> w < P0 + JITTER) = False"
      "(P1 - JITTER < w \<and> w < P1 + JITTER) = False"
      "(65 < w \<and> w < 135) = False" "(165 < w \<and> w < 235) = False"
      by (simp_all add: P0_def P1_def JITTER_def)
    show ?thesis
      unfolding c assms(4) [symmetric]
      by (simp add: pulse_ends_def assms(4) [symmetric] Let_def set_tm_sec_def win i e)
  qed
qed

text \<open>
  C2. The claim: a pulse whose width is in neither window, on a synchronised decoder, is
  dropped: no bit is written and the second counter does not advance. The source writes
  no bit, but the counter is incremented after the two window tests whatever they gave.
  What holds: such a pulse leaves the bit buffer (and the serial output) as they are, and
  the second counter and \<open>tm_sec\<close> advance by one, the indicator pin toggles.
\<close>

theorem unrecognised_pulse_advances_counter:
  assumes "newEdge st" and "edgeMode st = EDGE_FALLING" and "synchronized st"
    and "w = int_of_u32 (now - startPulse st)"
    and "\<not> (65 < w \<and> w < 135)" and "\<not> (165 < w \<and> w < 235)"
    and "seconds st < INT_MAX" and "tm_sec (dcf77Time st) < INT_MAX"
  shows "collectBits st now =
     Inr (False, st\<lparr>newEdge := False, endPulse := now, widthPulse := w,
       indicator := \<not> indicator st, seconds := seconds st + 1,
       dcf77Time := (dcf77Time st)\<lparr>tm_sec := tm_sec (dcf77Time st) + 1\<rparr>\<rparr>)"
proof -
  let ?W = "int_of_u32 (now - startPulse st)"
  have c: "collectBits st now = pulse_ends (st\<lparr>newEdge := False\<rparr>) now"
    using assms(1,2) by (simp add: collectBits_def EDGE_RISING_def EDGE_FALLING_def)
  have i: "incr (seconds st) = Inr (seconds st + 1)"
    "incr (tm_sec (dcf77Time st)) = Inr (tm_sec (dcf77Time st) + 1)"
    using assms(7,8) by (simp_all add: incr_def)
  have out: "(P0 - JITTER < ?W \<and> ?W < P0 + JITTER) = False"
    "(P1 - JITTER < ?W \<and> ?W < P1 + JITTER) = False"
    using assms(4,5,6) by (simp_all add: P0_def P1_def JITTER_def)
  show ?thesis
    unfolding c using assms(2-4)
    by (simp add: pulse_ends_def Let_def set_tm_sec_def out i)
qed

theorem unrecognised_pulse_advances_counter_witness:
  "newEdge (pulse_pending 7) \<and> edgeMode (pulse_pending 7) = EDGE_FALLING
   \<and> synchronized (pulse_pending 7)
   \<and> \<not> (65 < int_of_u32 (300 - startPulse (pulse_pending 7))
        \<and> int_of_u32 (300 - startPulse (pulse_pending 7)) < 135)
   \<and> \<not> (165 < int_of_u32 (300 - startPulse (pulse_pending 7))
        \<and> int_of_u32 (300 - startPulse (pulse_pending 7)) < 235)
   \<and> collectBits (pulse_pending 7) 300 =
     Inr (False, (pulse_pending 7)\<lparr>newEdge := False, endPulse := 300, widthPulse := 300,
       indicator := True, seconds := 8, dcf77Time := zero_tm\<lparr>tm_sec := 1\<rparr>\<rparr>)"
proof -
  have a: "newEdge (pulse_pending 7)" "edgeMode (pulse_pending 7) = EDGE_FALLING"
    "synchronized (pulse_pending 7)"
    by (simp_all add: pulse_pending_def)
  have w: "(300::int) = int_of_u32 (300 - startPulse (pulse_pending 7))"
    by (simp add: pulse_pending_def init_decoder_def int_of_u32_def)
  have o: "\<not> (65 < (300::int) \<and> (300::int) < 135)" "\<not> (165 < (300::int) \<and> (300::int) < 235)"
    by simp_all
  have b: "seconds (pulse_pending 7) < INT_MAX" "tm_sec (dcf77Time (pulse_pending 7)) < INT_MAX"
    by (simp_all add: pulse_pending_def init_decoder_def zero_tm_def INT_MAX_def)
  have s: "seconds (pulse_pending 7) = 7" "dcf77Time (pulse_pending 7) = zero_tm"
    "indicator (pulse_pending 7) = False" "tm_sec zero_tm = 0"
    by (simp_all add: pulse_pending_def init_decoder_def zero_tm_def)
  show ?thesis
    using unrecognised_pulse_advances_counter [OF a w o b] a w [symmetric]
    by (simp add: s)
qed

text \<open>A pulse of 150 ms at second 5: nothing is stored, and the counter goes from 5 to 6.\<close>

theorem unrecognised_pulse_counterexample:
  "int_of_u32 (150 - startPulse (pulse_pending 5)) = 150
   \<and> collectBits (pulse_pending 5) 150 =
     Inr (False, (pulse_pending 5)\<lparr>newEdge := False, endPulse := 150, widthPulse := 150,
       indicator := True, seconds := 6, dcf77Time := zero_tm\<lparr>tm_sec := 1\<rparr>\<rparr>)
   \<and> seconds (pulse_pending 5) = 5"
  by (simp add: collectBits_def pulse_ends_def incr_def Let_def set_tm_sec_def P0_def P1_def
      JITTER_def EDGE_RISING_def EDGE_FALLING_def pulse_pending_def init_decoder_def
      int_of_u32_def INT_MAX_def zero_tm_def)

text \<open>
  C5. The claim: a width \<open>w\<close> gives bit 0 if and only if \<open>w\<close> is in [65,135] and bit 1 if
  and only if \<open>w\<close> is in [165,235], boundaries included. The source compares with \<open><\<close>
  and \<open>>\<close>. What holds, at a falling edge on a synchronised decoder whose counter is
  inside the array and whose \<open>tm_sec\<close> is below \<open>INT_MAX\<close>, whatever the slot held before:
  '0' is stored at the counter's slot if 65 < w < 135, '1' if 165 < w < 235, and for every
  other width, the boundaries 65, 135, 165 and 235 among them, the buffer is left as it
  is; the bit is echoed on \<open>Serial\<close> when \<open>verbose\<close> is set.
\<close>

theorem pulse_width_open_windows:
  assumes "newEdge st" and "edgeMode st = EDGE_FALLING" and "synchronized st"
    and "w = int_of_u32 (now - startPulse st)"
    and "length (dcf77Bits st) = 62" and "0 \<le> seconds st" and "seconds st < 62"
    and "tm_sec (dcf77Time st) < INT_MAX"
  shows "collectBits st now =
     Inr (False, st\<lparr>newEdge := False, endPulse := now, widthPulse := w,
       dcf77Bits :=
         (if 65 < w \<and> w < 135 then (dcf77Bits st)[nat (seconds st) := CHR ''0'']
          else if 165 < w \<and> w < 235 then (dcf77Bits st)[nat (seconds st) := CHR ''1'']
          else dcf77Bits st),
       serial :=
         (if verbose st \<and> 65 < w \<and> w < 135 then serial st @ ''0''
          else if verbose st \<and> 165 < w \<and> w < 235 then serial st @ ''1''
          else serial st),
       indicator := \<not> indicator st, seconds := seconds st + 1,
       dcf77Time := (dcf77Time st)\<lparr>tm_sec := tm_sec (dcf77Time st) + 1\<rparr>\<rparr>)"
proof -
  have b: "seconds st < int (length (dcf77Bits st))" "seconds st < INT_MAX"
    using assms(5,7) by (simp_all add: INT_MAX_def)
  show ?thesis
    by (rule pulse_end_synchronized [OF assms(1-4) assms(6) b assms(8)])
qed

theorem pulse_width_open_windows_witness:
  "newEdge ((pulse_pending 21)\<lparr>dcf77Bits := example_bits\<rparr>)
   \<and> edgeMode ((pulse_pending 21)\<lparr>dcf77Bits := example_bits\<rparr>) = EDGE_FALLING
   \<and> synchronized ((pulse_pending 21)\<lparr>dcf77Bits := example_bits\<rparr>)
   \<and> length example_bits = 62 \<and> example_bits ! 21 = CHR ''1''
   \<and> collectBits ((pulse_pending 21)\<lparr>dcf77Bits := example_bits\<rparr>) 100 =
       Inr (False, (pulse_pending 21)\<lparr>newEdge := False, endPulse := 100, widthPulse := 100,
         dcf77Bits := example_bits[21 := CHR ''0''], indicator := True, seconds := 22,
         dcf77Time := zero_tm\<lparr>tm_sec := 1\<rparr>\<rparr>)"
proof -
  let ?s = "(pulse_pending 21)\<lparr>dcf77Bits := example_bits\<rparr>"
  have a: "newEdge ?s" "edgeMode ?s = EDGE_FALLING" "synchronized ?s"
    by (simp_all add: pulse_pending_def)
  have w: "(100::int) = int_of_u32 (100 - startPulse ?s)"
    by (simp add: pulse_pending_def init_decoder_def int_of_u32_def)
  have b: "length (dcf77Bits ?s) = 62" "0 \<le> seconds ?s" "seconds ?s < 62"
    "tm_sec (dcf77Time ?s) < INT_MAX"
    by (simp_all add: pulse_pending_def init_decoder_def zero_tm_def INT_MAX_def
        example_bits_def)
  have s: "seconds ?s = 21" "dcf77Time ?s = zero_tm" "indicator ?s = False"
    "tm_sec zero_tm = 0" "verbose ?s = False" "dcf77Bits ?s = example_bits"
    by (simp_all add: pulse_pending_def init_decoder_def zero_tm_def)
  have e: "length example_bits = 62" "example_bits ! 21 = CHR ''1''"
    by (simp_all add: example_bits_def)
  show ?thesis
    using pulse_width_open_windows [OF a w b] a e
    by (simp add: s)
qed

text \<open>A pulse of exactly 65 ms, inside the claimed window, stores no bit: slot 21 keeps 'm'.\<close>

theorem pulse_width_65_counterexample:
  "int_of_u32 (65 - startPulse (pulse_pending 21)) = 65
   \<and> collectBits (pulse_pending 21) 65 =
     Inr (False, (pulse_pending 21)\<lparr>newEdge := False, endPulse := 65, widthPulse := 65,
       indicator := True, seconds := 22, dcf77Time := zero_tm\<lparr>tm_sec := 1\<rparr>\<rparr>)
   \<and> dcf77Bits (pulse_pending 21) ! 21 = CHR ''m''"
  by (simp add: collectBits_def pulse_ends_def incr_def Let_def set_tm_sec_def P0_def P1_def
      JITTER_def EDGE_RISING_def EDGE_FALLING_def pulse_pending_def init_decoder_def
      int_of_u32_def INT_MAX_def zero_tm_def template_bits_def)

lemma collectBits_returns:
  assumes "0 \<le> seconds st" and "seconds st < int (length (dcf77Bits st))"
    and "seconds st < INT_MAX" and "tm_sec (dcf77Time st) < INT_MAX"
  shows "\<exists>r st'. collectBits st now = Inr (r, st')"
proof (cases "newEdge st")
  case False
  then have "collectBits st now = Inr (False, st)" by (simp add: collectBits_def)
  then show ?thesis by blast
next
  case new: True
  show ?thesis
  proof (cases "edgeMode st = EDGE_FALLING")
    case falling: True
    show ?thesis
    proof (cases "synchronized st")
      case True
      from pulse_end_synchronized [OF new falling True refl assms] show ?thesis by blast
    next
      case False
      with new falling
      have "collectBits st now = Inr (False,
          if verbose st
          then serial_print ''*'' (st\<lparr>newEdge := False, endPulse := now,
                 widthPulse := int_of_u32 (now - startPulse st)\<rparr>)
          else st\<lparr>newEdge := False, endPulse := now,
                 widthPulse := int_of_u32 (now - startPulse st)\<rparr>)"
        by (simp add: collectBits_def pulse_ends_def Let_def EDGE_RISING_def EDGE_FALLING_def)
      then show ?thesis by blast
    qed
  next
    case other: False
    show ?thesis
    proof (cases "edgeMode st = EDGE_RISING")
      case True
      from pause_end [OF new True refl, of now] show ?thesis
        by (cases "1765 < int_of_u32 (now - endPulse st) \<and> int_of_u32 (now - endPulse st) < 1935")
          auto
    next
      case False
      with new other have "collectBits st now = Inr (False, st\<lparr>newEdge := False\<rparr>)"
        by (simp add: collectBits_def pulse_ends_def)
      then show ?thesis by blast
    qed
  qed
qed

text \<open>
  While the counter is inside the 62 bytes of the array, every call of \<open>collectBits\<close>
  returns and only the slot at the counter can change; a recognised pulse is stored there.
\<close>

lemma collectBits_inside_array:
  assumes "length (dcf77Bits st) = 62" and "0 \<le> seconds st" and "seconds st < 62"
    and "tm_sec (dcf77Time st) < INT_MAX" and "w = int_of_u32 (now - startPulse st)"
  shows "\<exists>r st'. collectBits st now = Inr (r, st')
     \<and> length (dcf77Bits st') = 62
     \<and> (\<forall>i. i \<noteq> nat (seconds st) \<longrightarrow> dcf77Bits st' ! i = dcf77Bits st ! i)
     \<and> (newEdge st \<and> edgeMode st = EDGE_FALLING \<and> synchronized st \<and> 65 < w \<and> w < 135
          \<longrightarrow> dcf77Bits st' ! nat (seconds st) = CHR ''0'')
     \<and> (newEdge st \<and> edgeMode st = EDGE_FALLING \<and> synchronized st \<and> 165 < w \<and> w < 235
          \<longrightarrow> dcf77Bits st' ! nat (seconds st) = CHR ''1'')"
proof -
  let ?n = "nat (seconds st)"
  have b: "seconds st < int (length (dcf77Bits st))" "seconds st < INT_MAX"
    using assms(1,3) by (simp_all add: INT_MAX_def)
  have n: "?n < length (dcf77Bits st)" using assms(1,2,3) by simp
  obtain r st' where r: "collectBits st now = Inr (r, st')"
    using collectBits_returns [OF assms(2) b assms(4)] by blast
  from collectBits_bits [OF r]
  have frame: "length (dcf77Bits st') = 62
     \<and> (\<forall>i. i \<noteq> ?n \<longrightarrow> dcf77Bits st' ! i = dcf77Bits st ! i)"
    using assms(1) by auto
  have zero: "dcf77Bits st' ! ?n = CHR ''0''"
    if "newEdge st \<and> edgeMode st = EDGE_FALLING \<and> synchronized st \<and> 65 < w \<and> w < 135"
  proof -
    from that pulse_end_synchronized [OF _ _ _ assms(5) assms(2) b assms(4)]
    have "dcf77Bits st' = (dcf77Bits st)[?n := CHR ''0'']"
      using r by simp
    then show ?thesis using n by simp
  qed
  have one: "dcf77Bits st' ! ?n = CHR ''1''"
    if "newEdge st \<and> edgeMode st = EDGE_FALLING \<and> synchronized st \<and> 165 < w \<and> w < 235"
  proof -
    from that pulse_end_synchronized [OF _ _ _ assms(5) assms(2) b assms(4)]
    have "dcf77Bits st' = (dcf77Bits st)[?n := CHR ''1'']"
      using r by simp
    then show ?thesis using n by simp
  qed
  from r frame zero one show ?thesis by blast
qed

text \<open>With the counter at 59 a pulse of 100 ms is stored over the '_' of the template.\<close>

lemma pulse_at_counter_59:
  "seconds (pulse_pending 59) = 59 \<and> dcf77Bits (pulse_pending 59) = template_bits
   \<and> collectBits (pulse_pending 59) 100 =
     Inr (False, (pulse_pending 59)\<lparr>newEdge := False, endPulse := 100, widthPulse := 100,
       dcf77Bits := template_bits[59 := CHR ''0''],
       indicator := True, seconds := 60, dcf77Time := zero_tm\<lparr>tm_sec := 1\<rparr>\<rparr>)
   \<and> template_bits ! 59 = CHR ''_'' \<and> template_bits[59 := CHR ''0''] ! 59 = CHR ''0''"
  by (simp add: collectBits_def pulse_ends_def incr_def Let_def set_tm_sec_def P0_def P1_def
      JITTER_def EDGE_RISING_def EDGE_FALLING_def pulse_pending_def init_decoder_def
      int_of_u32_def INT_MAX_def zero_tm_def template_bits_def store_bit_def)

text \<open>Past the last byte of the array the write is outside it: the model stops with a fault.\<close>

lemma write_past_the_array:
  "collectBits (pulse_pending 62) 100 = Inl Out_of_bounds"
  by (simp add: collectBits_def pulse_ends_def Let_def P0_def P1_def JITTER_def
      EDGE_RISING_def EDGE_FALLING_def pulse_pending_def init_decoder_def int_of_u32_def
      template_bits_def store_bit_def)

text \<open>
  A run from the decoder as constructed: the first rising edge ends a pause of 1800 ms and
  synchronises, and from then on a pulse of 100 ms arrives every second, with no sync gap.
\<close>

lemma run_append:
  "run st (xs @ ys) = (case run st xs of Inl f \<Rightarrow> Inl f | Inr s \<Rightarrow> run s ys)"
  by (induction xs arbitrary: st) (auto split: sum.splits)

lemma pulse_rises:
  assumes "synchronized st" and "endPulse st = t - 900"
  shows "run st [Edge 1, Poll t] =
     Inr (st\<lparr>edgeMode := 1, newEdge := False, startPulse := t, widthPause := 900\<rparr>)"
proof -
  let ?s = "handleInterrupt st 1"
  have g: "(900::int) = int_of_u32 (t - endPulse ?s)"
    using assms(2) by (simp add: handleInterrupt_def int_of_u32_def)
  have e: "newEdge ?s" "edgeMode ?s = EDGE_RISING"
    by (simp_all add: handleInterrupt_def EDGE_RISING_def)
  have c: "collectBits ?s t =
      Inr (False, st\<lparr>edgeMode := 1, newEdge := False, startPulse := t, widthPause := 900\<rparr>)"
    unfolding pause_end [OF e g] by (simp add: handleInterrupt_def)
  show ?thesis
    by (simp add: loop_def c)
qed

lemma pulse_counted:
  assumes "synchronized st" and "seconds st = int k" and "tm_sec (dcf77Time st) = int k"
    and "endPulse st = t - 900" and "length (dcf77Bits st) = 62" and "k < 62"
  shows "\<exists>st'. run st (pulse t) = Inr st' \<and> synchronized st' \<and> seconds st' = int (Suc k)
     \<and> tm_sec (dcf77Time st') = int (Suc k) \<and> endPulse st' = t + 100
     \<and> dcf77Bits st' = (dcf77Bits st)[k := CHR ''0'']"
proof -
  let ?s1 = "st\<lparr>edgeMode := 1, newEdge := False, startPulse := t, widthPause := 900\<rparr>"
  let ?s2 = "handleInterrupt ?s1 0"
  have w: "(100::int) = int_of_u32 (t + 100 - startPulse ?s2)"
    by (simp add: handleInterrupt_def int_of_u32_def)
  have e: "newEdge ?s2" "edgeMode ?s2 = EDGE_FALLING" "synchronized ?s2"
    using assms(1) by (simp_all add: handleInterrupt_def EDGE_FALLING_def)
  have b: "0 \<le> seconds ?s2" "seconds ?s2 < int (length (dcf77Bits ?s2))"
    "seconds ?s2 < INT_MAX" "tm_sec (dcf77Time ?s2) < INT_MAX"
    using assms(2,3,5,6) by (simp_all add: handleInterrupt_def INT_MAX_def)
  obtain st' where c: "collectBits ?s2 (t + 100) = Inr (False, st')"
    and p: "synchronized st'" "seconds st' = int (Suc k)"
      "tm_sec (dcf77Time st') = int (Suc k)" "endPulse st' = t + 100"
      "dcf77Bits st' = (dcf77Bits st)[k := CHR ''0'']"
    using pulse_end_synchronized [OF e w b] assms(1,2,3)
    by (simp add: handleInterrupt_def)
  have "run st (pulse t) = (case run st [Edge 1, Poll t] of Inl f \<Rightarrow> Inl f
      | Inr s \<Rightarrow> run s [Edge 0, Poll (t + 100)])"
    using run_append [of st "[Edge 1, Poll t]" "[Edge 0, Poll (t + 100)]"]
    by (simp add: pulse_def)
  also have "\<dots> = run ?s1 [Edge 0, Poll (t + 100)]"
    by (simp only: pulse_rises [OF assms(1,4)] sum.case)
  also have "\<dots> = Inr st'"
    by (simp add: loop_def c)
  finally show ?thesis using p by blast
qed

lemma pulse_overruns:
  assumes "synchronized st" and "seconds st = 62"
    and "endPulse st = t - 900" and "length (dcf77Bits st) = 62"
  shows "run st (pulse t) = Inl Out_of_bounds"
proof -
  let ?s1 = "st\<lparr>edgeMode := 1, newEdge := False, startPulse := t, widthPause := 900\<rparr>"
  let ?s2 = "handleInterrupt ?s1 0"
  have w: "int_of_u32 100 = 100"
    by (simp add: int_of_u32_def)
  have c: "collectBits ?s2 (t + 100) = Inl Out_of_bounds"
    using assms(1,2,4)
    by (simp add: collectBits_def pulse_ends_def store_bit_def Let_def handleInterrupt_def w
        P0_def P1_def JITTER_def EDGE_RISING_def EDGE_FALLING_def)
  have "run st (pulse t) = (case run st [Edge 1, Poll t] of Inl f \<Rightarrow> Inl f
      | Inr s \<Rightarrow> run s [Edge 0, Poll (t + 100)])"
    using run_append [of st "[Edge 1, Poll t]" "[Edge 0, Poll (t + 100)]"]
    by (simp add: pulse_def)
  also have "\<dots> = run ?s1 [Edge 0, Poll (t + 100)]"
    by (simp only: pulse_rises [OF assms(1,3)] sum.case)
  also have "\<dots> = Inl Out_of_bounds"
    by (simp add: loop_def c)
  finally show ?thesis .
qed

lemma train_counted:
  assumes "synchronized st" and "seconds st = int k" and "tm_sec (dcf77Time st) = int k"
    and "endPulse st = t - 900" and "length (dcf77Bits st) = 62" and "k + n \<le> 62"
  shows "\<exists>st'. run st (pulse_train n t) = Inr st' \<and> synchronized st'
     \<and> seconds st' = int (k + n) \<and> tm_sec (dcf77Time st') = int (k + n)
     \<and> endPulse st' = t + 1000 * of_nat n - 900 \<and> length (dcf77Bits st') = 62
     \<and> (\<forall>i. i < k \<longrightarrow> dcf77Bits st' ! i = dcf77Bits st ! i)
     \<and> (\<forall>i. k \<le> i \<and> i < k + n \<longrightarrow> dcf77Bits st' ! i = CHR ''0'')"
  using assms
proof (induction n arbitrary: st k t)
  case 0
  then show ?case by auto
next
  case (Suc n)
  have k: "k < 62" using Suc.prems(6) by simp
  obtain s where r: "run st (pulse t) = Inr s" and s: "synchronized s"
    "seconds s = int (Suc k)" "tm_sec (dcf77Time s) = int (Suc k)" "endPulse s = t + 100"
    and b: "dcf77Bits s = (dcf77Bits st)[k := CHR ''0'']"
    using pulse_counted [OF Suc.prems(1-5) k] by blast
  have e: "endPulse s = t + 1000 - 900" using s(4) by simp
  have l: "length (dcf77Bits s) = 62" using b Suc.prems(5) by simp
  have n: "Suc k + n \<le> 62" using Suc.prems(6) by simp
  obtain st' where r': "run s (pulse_train n (t + 1000)) = Inr st'"
    and p: "synchronized st'" "seconds st' = int (Suc k + n)"
      "tm_sec (dcf77Time st') = int (Suc k + n)"
      "endPulse st' = t + 1000 + 1000 * of_nat n - 900" "length (dcf77Bits st') = 62"
    and f: "\<forall>i. i < Suc k \<longrightarrow> dcf77Bits st' ! i = dcf77Bits s ! i"
    and z: "\<forall>i. Suc k \<le> i \<and> i < Suc k + n \<longrightarrow> dcf77Bits st' ! i = CHR ''0''"
    using Suc.IH [OF s(1-3) e l n] by blast
  have 1: "run st (pulse_train (Suc n) t) = Inr st'"
    by (simp add: run_append r r')
  have 2: "endPulse st' = t + 1000 * of_nat (Suc n) - 900"
    using p(4) by (simp add: algebra_simps)
  have 3: "dcf77Bits st' ! k = CHR ''0''"
    using f b k Suc.prems(5) by simp
  have 4: "\<forall>i. i < k \<longrightarrow> dcf77Bits st' ! i = dcf77Bits st ! i"
    using f b by simp
  have 5: "\<forall>i. k \<le> i \<and> i < k + Suc n \<longrightarrow> dcf77Bits st' ! i = CHR ''0''"
  proof (intro allI impI)
    fix i assume i: "k \<le> i \<and> i < k + Suc n"
    show "dcf77Bits st' ! i = CHR ''0''"
    proof (cases "i = k")
      case True
      with 3 show ?thesis by simp
    next
      case False
      with i have "Suc k \<le> i \<and> i < Suc k + n" by simp
      with z show ?thesis by blast
    qed
  qed
  from 1 2 4 5 p(1,2,3,5) show ?case by simp
qed

lemma train_overruns:
  assumes "synchronized st" and "seconds st = int k" and "tm_sec (dcf77Time st) = int k"
    and "endPulse st = t - 900" and "length (dcf77Bits st) = 62" and "k \<le> 62"
    and "62 < k + n"
  shows "run st (pulse_train n t) = Inl Out_of_bounds"
  using assms
proof (induction n arbitrary: st k t)
  case 0
  then show ?case by simp
next
  case (Suc n)
  show ?case
  proof (cases "k = 62")
    case True
    with Suc.prems(2) have "seconds st = 62" by simp
    from pulse_overruns [OF Suc.prems(1) this Suc.prems(4,5)] show ?thesis
      by (simp add: run_append)
  next
    case False
    with Suc.prems(6) have k: "k < 62" by simp
    obtain s where r: "run st (pulse t) = Inr s" and s: "synchronized s"
      "seconds s = int (Suc k)" "tm_sec (dcf77Time s) = int (Suc k)" "endPulse s = t + 100"
      and b: "dcf77Bits s = (dcf77Bits st)[k := CHR ''0'']"
      using pulse_counted [OF Suc.prems(1-5) k] by blast
    have e: "endPulse s = t + 1000 - 900" using s(4) by simp
    have l: "length (dcf77Bits s) = 62" using b Suc.prems(5) by simp
    have n: "Suc k \<le> 62" "62 < Suc k + n" using k Suc.prems(7) by simp_all
    from Suc.IH [OF s(1-3) e l n] show ?thesis
      by (simp add: run_append r)
  qed
qed

lemma first_minute_start:
  "run (init_decoder zero_tm) [Edge 1, Poll 1800, Edge 0, Poll 1900] =
     Inr ((init_decoder zero_tm)\<lparr>edgeMode := 0, startPulse := 1800, endPulse := 1900,
       widthPulse := 100, widthPause := 1800, synchronized := True, seconds := 1,
       dcf77Bits := template_bits[0 := CHR ''0''],
       dcf77Time := zero_tm\<lparr>tm_sec := 1\<rparr>, indicator := True,
       serial := parity_failed_message @ ''0''\<rparr>)"
proof -
  let ?i = "init_decoder zero_tm"
  let ?a = "handleInterrupt ?i 1"
  let ?b = "?i\<lparr>edgeMode := 1, startPulse := 1800, widthPause := 1800, synchronized := True\<rparr>"
  let ?c = "handleInterrupt (?b\<lparr>serial := parity_failed_message\<rparr>) 0"
  have e: "newEdge ?a" "edgeMode ?a = EDGE_RISING"
    by (simp_all add: handleInterrupt_def EDGE_RISING_def)
  have g: "(1800::int) = int_of_u32 (1800 - endPulse ?a)"
    by (simp add: handleInterrupt_def init_decoder_def int_of_u32_def)
  have c1: "collectBits ?a 1800 = Inr (True, ?b)"
    unfolding pause_end [OF e g]
    by (simp add: handleInterrupt_def init_decoder_def zero_tm_def)
  have p: "parityOK ?b = False"
    by (simp add: parityOK_def parity_loop.simps init_decoder_def template_bits_def
        int_of_char_def c_rem_def)
  have s: "serial ?b = []"
    by (simp add: init_decoder_def)
  have l1: "loop ?a 1800 = Inr (?b\<lparr>serial := parity_failed_message\<rparr>)"
    unfolding loop_def c1 by (simp add: p serial_print_def s)
  have f: "newEdge ?c" "edgeMode ?c = EDGE_FALLING" "synchronized ?c"
    "0 \<le> seconds ?c" "seconds ?c < int (length (dcf77Bits ?c))"
    "seconds ?c < INT_MAX" "tm_sec (dcf77Time ?c) < INT_MAX"
    by (simp_all add: handleInterrupt_def EDGE_FALLING_def INT_MAX_def init_decoder_def
        zero_tm_def template_bits_def)
  have w: "(100::int) = int_of_u32 (1900 - startPulse ?c)"
    by (simp add: handleInterrupt_def int_of_u32_def)
  have c2: "collectBits ?c 1900 =
      Inr (False, ?i\<lparr>edgeMode := 0, startPulse := 1800, endPulse := 1900,
       widthPulse := 100, widthPause := 1800, synchronized := True, seconds := 1,
       dcf77Bits := template_bits[0 := CHR ''0''],
       dcf77Time := zero_tm\<lparr>tm_sec := 1\<rparr>, indicator := True,
       serial := parity_failed_message @ ''0''\<rparr>)"
    unfolding pulse_end_synchronized [OF f(1-3) w f(4-7)]
    by (simp add: handleInterrupt_def init_decoder_def zero_tm_def)
  have l2: "loop ?c 1900 =
      Inr (?i\<lparr>edgeMode := 0, startPulse := 1800, endPulse := 1900,
       widthPulse := 100, widthPause := 1800, synchronized := True, seconds := 1,
       dcf77Bits := template_bits[0 := CHR ''0''],
       dcf77Time := zero_tm\<lparr>tm_sec := 1\<rparr>, indicator := True,
       serial := parity_failed_message @ ''0''\<rparr>)"
    unfolding loop_def c2 by simp
  show ?thesis
    by (simp add: l1 l2)
qed

text \<open>
  C3. The claim: no bit is ever written at an index of 59 or more; if the counter reaches
  59 without a sync gap, the bit is discarded rather than written out of bounds. The
  source writes \<open>_dcf77Bits[_seconds]\<close> with no check of the counter. On the decoder as
  constructed, after the synchronising edge and 62 pulses with no sync gap the counter is
  62 and the slots 59, 60 and 61 have been overwritten; the 63rd pulse writes index 62,
  outside \<open>char _dcf77Bits[62]\<close>.
\<close>

theorem missed_sync_gap_overruns_buffer:
  "(\<exists>st. run (init_decoder zero_tm)
            ([Edge 1, Poll 1800, Edge 0, Poll 1900] @ pulse_train 61 2800) = Inr st
      \<and> seconds st = 62 \<and> dcf77Bits st ! 59 = CHR ''0'' \<and> dcf77Bits st ! 60 = CHR ''0''
      \<and> dcf77Bits st ! 61 = CHR ''0'')
   \<and> run (init_decoder zero_tm)
       ([Edge 1, Poll 1800, Edge 0, Poll 1900] @ pulse_train 62 2800) = Inl Out_of_bounds"
proof -
  let ?s = "(init_decoder zero_tm)\<lparr>edgeMode := 0, startPulse := 1800, endPulse := 1900,
       widthPulse := 100, widthPause := 1800, synchronized := True, seconds := 1,
       dcf77Bits := template_bits[0 := CHR ''0''],
       dcf77Time := zero_tm\<lparr>tm_sec := 1\<rparr>, indicator := True,
       serial := parity_failed_message @ ''0''\<rparr>"
  have a: "synchronized ?s" "seconds ?s = int 1" "tm_sec (dcf77Time ?s) = int 1"
    "endPulse ?s = 2800 - 900" "length (dcf77Bits ?s) = 62"
    by (simp_all add: template_bits_def)
  have "\<exists>st. run ?s (pulse_train 61 2800) = Inr st \<and> seconds st = 62
      \<and> dcf77Bits st ! 59 = CHR ''0'' \<and> dcf77Bits st ! 60 = CHR ''0''
      \<and> dcf77Bits st ! 61 = CHR ''0''"
    using train_counted [OF a, of 61] by auto
  moreover have "run ?s (pulse_train 62 2800) = Inl Out_of_bounds"
    using train_overruns [OF a, of 62] by simp
  ultimately show ?thesis
    unfolding run_append first_minute_start by simp
qed

section \<open>Decoding the telegram\<close>

text \<open>What \<open>decodeBits\<close> computes, with the three cases of the time zone bits merged.\<close>

lemma decodeBits_eq:
  "decodeBits st =
     (let v = getValueFromBits st 17 2;
          z = (if v = 2 then 2 else if v = 1 then 1 else 0);
          t = (dcf77Time st)\<lparr>
                tm_isdst := (if v = 2 then 0 else if v = 1 then 1 else - 1),
                tm_sec := 0,
                tm_min := getValueFromBits st 21 7,
                tm_hour := getValueFromBits st 29 6,
                tm_mday := getValueFromBits st 36 6,
                tm_wday := getValueFromBits st 42 3,
                tm_mon := getValueFromBits st 45 5 - 1,
                tm_year := getValueFromBits st 50 8 + 100\<rparr>
      in if 0 \<le> tm_wday t \<and> tm_wday t < 8
         then Inr (st\<lparr>z12 := z, dcf77Time := t, dcf77TimeString :=
                 format_time (weekDay ! nat (tm_wday t)) (tm_year t - 100) (tm_mon t + 1)
                   (tm_mday t) (tm_hour t) (tm_min t) (tm_sec t) (timeZone ! nat z)\<rparr>)
         else Inl Out_of_bounds)"
proof -
  let ?v = "getValueFromBits st 17 2"
  have g: "\<And>z d f n. getValueFromBits (st\<lparr>z12 := z, dcf77Time := d\<rparr>) f n = getValueFromBits st f n"
    by (simp add: getValueFromBits_def)
  consider (mez) "?v = 2" | (mesz) "?v = 1" | (none) "?v \<noteq> 2 \<and> ?v \<noteq> 1"
    by blast
  then show ?thesis
  proof cases
    case mez
    show ?thesis
      by (simp add: decodeBits_def Let_def g mez weekDay_def timeZone_def)
  next
    case mesz
    show ?thesis
      by (simp add: decodeBits_def Let_def g mesz weekDay_def timeZone_def)
  next
    case none
    then have n: "(?v = 2) = False" "(?v = 1) = False" by simp_all
    show ?thesis
      by (simp add: decodeBits_def Let_def g n weekDay_def timeZone_def)
  qed
qed

lemma decodeBits_bits: "decodeBits st = Inr st' \<Longrightarrow> dcf77Bits st' = dcf77Bits st"
  unfolding decodeBits_eq Let_def by (auto split: if_splits)

lemma example_values:
  assumes "dcf77Bits st = example_bits"
  shows "getValueFromBits st 17 2 = 2" and "getValueFromBits st 21 7 = 39"
    and "getValueFromBits st 29 6 = 9" and "getValueFromBits st 36 6 = 5"
    and "getValueFromBits st 42 3 = 6" and "getValueFromBits st 45 5 = 3"
    and "getValueFromBits st 50 8 = 16"
  using assms
  by (simp_all add: getValueFromBits_def bcd_loop.simps bcdValue_def example_bits_def
      int_of_char_def)

lemma format_example:
  "format_time (weekDay ! nat 6) (116 - 100) (2 + 1) 5 9 39 0 (timeZone ! nat 2)
     = '' Sa 2016-03-05 09:39:00  MEZ DCF77''"
  by (simp add: format_time_def weekDay_def timeZone_def fmt_s_def fmt_02d_def dec_digits.simps)

text \<open>
  C7. With the example telegram of dcf77RadioClock.cpp in the buffer, the parity check
  passes and \<open>decodeBits\<close> gives Saturday (weekday 6, "Sa") 2016-03-05 09:39:00, the time
  zone bits 01 decoding to value 2, standard time (\<open>tm_isdst = 0\<close>, "MEZ").
\<close>

theorem example_telegram_decodes:
  assumes "dcf77Bits st = example_bits"
  shows "parityOK st
     \<and> decodeBits st =
        Inr (st\<lparr>z12 := 2,
               dcf77Time := (dcf77Time st)\<lparr>tm_isdst := 0, tm_sec := 0, tm_min := 39,
                 tm_hour := 9, tm_mday := 5, tm_wday := 6, tm_mon := 2, tm_year := 116\<rparr>,
               dcf77TimeString := '' Sa 2016-03-05 09:39:00  MEZ DCF77''\<rparr>)"
proof -
  have p: "parityOK st"
    using assms
    by (simp add: parityOK_def parity_loop.simps example_bits_def int_of_char_def c_rem_def)
  have d: "decodeBits st =
        Inr (st\<lparr>z12 := 2,
               dcf77Time := (dcf77Time st)\<lparr>tm_isdst := 0, tm_sec := 0, tm_min := 39,
                 tm_hour := 9, tm_mday := 5, tm_wday := 6, tm_mon := 2, tm_year := 116\<rparr>,
               dcf77TimeString := '' Sa 2016-03-05 09:39:00  MEZ DCF77''\<rparr>)"
    unfolding decodeBits_eq Let_def example_values [OF assms]
    using format_example by simp
  from p d show ?thesis by simp
qed

theorem example_telegram_decodes_witness:
  "dcf77Bits example_decoder = example_bits
   \<and> parityOK example_decoder
   \<and> decodeBits example_decoder =
        Inr (example_decoder\<lparr>z12 := 2,
               dcf77Time := zero_tm\<lparr>tm_isdst := 0, tm_sec := 0, tm_min := 39,
                 tm_hour := 9, tm_mday := 5, tm_wday := 6, tm_mon := 2, tm_year := 116\<rparr>,
               dcf77TimeString := '' Sa 2016-03-05 09:39:00  MEZ DCF77''\<rparr>)"
proof -
  have b: "dcf77Bits example_decoder = example_bits"
    by (simp add: example_decoder_def)
  have t: "dcf77Time example_decoder = zero_tm"
    by (simp add: example_decoder_def init_decoder_def)
  show ?thesis
    using example_telegram_decodes [OF b] b by (simp add: t)
qed

lemma filled_bit_value:
  assumes "filled bits" and "i < 59"
  shows "bit_value (bits ! i) = 0 \<or> bit_value (bits ! i) = 1"
proof -
  have "list_all is_bit (take 59 bits)" and "i < length (take 59 bits)"
    using assms by (simp_all add: filled_def)
  then have "is_bit (take 59 bits ! i)" by (simp add: list_all_length)
  then have "is_bit (bits ! i)" using assms(2) by simp
  then show ?thesis by (auto simp: is_bit_def bit_value_def int_of_char_def)
qed

lemma weekday_value:
  "getValueFromBits st 42 3 =
     bit_value (dcf77Bits st ! 42) + 2 * bit_value (dcf77Bits st ! 43)
     + 4 * bit_value (dcf77Bits st ! 44)"
  by (simp add: getValueFromBits_def bcd_loop.simps bcdValue_def bit_value_def)

lemma month_value:
  "getValueFromBits st 45 5 =
     bit_value (dcf77Bits st ! 45) + 2 * bit_value (dcf77Bits st ! 46)
     + 4 * bit_value (dcf77Bits st ! 47) + 8 * bit_value (dcf77Bits st ! 48)
     + 10 * bit_value (dcf77Bits st ! 49)"
  by (simp add: getValueFromBits_def bcd_loop.simps bcdValue_def bit_value_def)

lemma year_value:
  "getValueFromBits st 50 8 =
     bit_value (dcf77Bits st ! 50) + 2 * bit_value (dcf77Bits st ! 51)
     + 4 * bit_value (dcf77Bits st ! 52) + 8 * bit_value (dcf77Bits st ! 53)
     + 10 * bit_value (dcf77Bits st ! 54) + 20 * bit_value (dcf77Bits st ! 55)
     + 40 * bit_value (dcf77Bits st ! 56) + 80 * bit_value (dcf77Bits st ! 57)"
  by (simp add: getValueFromBits_def bcd_loop.simps bcdValue_def bit_value_def)

text \<open>
  C10. After \<open>decodeBits\<close> on a filled buffer, \<open>tm_mon\<close> is the BCD month minus 1 and
  \<open>tm_year\<close> the BCD year plus 100, while \<open>tm_wday\<close> is the BCD weekday as transmitted
  (1 = Monday .. 7 = Sunday): with the three weekday bits set, Sunday is stored as 7.
\<close>

theorem decodeBits_tm_conventions:
  assumes "filled (dcf77Bits st)"
  shows "\<exists>st'. decodeBits st = Inr st'
     \<and> tm_mon (dcf77Time st') =
         bit_value (dcf77Bits st ! 45) + 2 * bit_value (dcf77Bits st ! 46)
         + 4 * bit_value (dcf77Bits st ! 47) + 8 * bit_value (dcf77Bits st ! 48)
         + 10 * bit_value (dcf77Bits st ! 49) - 1
     \<and> tm_year (dcf77Time st') =
         bit_value (dcf77Bits st ! 50) + 2 * bit_value (dcf77Bits st ! 51)
         + 4 * bit_value (dcf77Bits st ! 52) + 8 * bit_value (dcf77Bits st ! 53)
         + 10 * bit_value (dcf77Bits st ! 54) + 20 * bit_value (dcf77Bits st ! 55)
         + 40 * bit_value (dcf77Bits st ! 56) + 80 * bit_value (dcf77Bits st ! 57) + 100
     \<and> tm_wday (dcf77Time st') =
         bit_value (dcf77Bits st ! 42) + 2 * bit_value (dcf77Bits st ! 43)
         + 4 * bit_value (dcf77Bits st ! 44)
     \<and> (dcf77Bits st ! 42 = CHR ''1'' \<and> dcf77Bits st ! 43 = CHR ''1''
          \<and> dcf77Bits st ! 44 = CHR ''1'' \<longrightarrow> tm_wday (dcf77Time st') = 7)"
proof -
  let ?wd = "getValueFromBits st 42 3"
  have "bit_value (dcf77Bits st ! 42) = 0 \<or> bit_value (dcf77Bits st ! 42) = 1"
    "bit_value (dcf77Bits st ! 43) = 0 \<or> bit_value (dcf77Bits st ! 43) = 1"
    "bit_value (dcf77Bits st ! 44) = 0 \<or> bit_value (dcf77Bits st ! 44) = 1"
    using assms by (simp_all add: filled_bit_value)
  then have range: "0 \<le> ?wd \<and> ?wd < 8"
    unfolding weekday_value by auto
  have one: "bit_value CHR ''1'' = 1"
    by (simp add: bit_value_def int_of_char_def)
  have sunday: "?wd = 7"
    if "dcf77Bits st ! 42 = CHR ''1'' \<and> dcf77Bits st ! 43 = CHR ''1''
      \<and> dcf77Bits st ! 44 = CHR ''1''"
    using that unfolding weekday_value by (simp add: one)
  obtain st' where d: "decodeBits st = Inr st'"
    and f: "tm_mon (dcf77Time st') = getValueFromBits st 45 5 - 1"
      "tm_year (dcf77Time st') = getValueFromBits st 50 8 + 100"
      "tm_wday (dcf77Time st') = ?wd"
    using range unfolding decodeBits_eq Let_def by simp
  show ?thesis
    using d f sunday unfolding weekday_value month_value year_value by simp
qed

theorem decodeBits_tm_conventions_witness:
  "filled (dcf77Bits sunday_decoder)
   \<and> dcf77Bits sunday_decoder ! 42 = CHR ''1'' \<and> dcf77Bits sunday_decoder ! 43 = CHR ''1''
   \<and> dcf77Bits sunday_decoder ! 44 = CHR ''1''
   \<and> (\<exists>st'. decodeBits sunday_decoder = Inr st' \<and> tm_mon (dcf77Time st') = 2
        \<and> tm_year (dcf77Time st') = 116 \<and> tm_wday (dcf77Time st') = 7)"
proof -
  have f: "filled (dcf77Bits sunday_decoder)"
    by (simp add: sunday_decoder_def sunday_bits_def filled_def is_bit_def)
  have b: "dcf77Bits sunday_decoder = sunday_bits"
    by (simp add: sunday_decoder_def)
  have v: "bit_value CHR ''0'' = 0" "bit_value CHR ''1'' = 1"
    by (simp_all add: bit_value_def int_of_char_def)
  show ?thesis
    using decodeBits_tm_conventions [OF f] f
    unfolding b by (simp add: sunday_bits_def v)
qed

section \<open>The polling loop\<close>

lemma pulse_ends_record:
  assumes "pulse_ends st now = Inr (r, st')"
  shows "r = False \<and> (dcf77Time st')\<lparr>tm_sec := 0\<rparr> = (dcf77Time st)\<lparr>tm_sec := 0\<rparr>
     \<and> z12 st' = z12 st \<and> dcf77TimeString st' = dcf77TimeString st"
  using assms
  by (auto simp: pulse_ends_def store_bit_def incr_def Let_def serial_print_def set_tm_sec_def
      split: if_splits sum.splits)

lemma collectBits_record:
  assumes "collectBits st now = Inr (r, st')"
  shows "(dcf77Time st')\<lparr>tm_sec := 0\<rparr> = (dcf77Time st)\<lparr>tm_sec := 0\<rparr>
     \<and> z12 st' = z12 st \<and> dcf77TimeString st' = dcf77TimeString st
     \<and> (r \<longrightarrow> tm_sec (dcf77Time st') = 0)"
proof (cases "newEdge st")
  case False
  with assms show ?thesis by (auto simp: collectBits_def)
next
  case True
  show ?thesis
  proof (cases "edgeMode st = EDGE_RISING")
    case rising: True
    show ?thesis
    proof (cases "int_of_u32 (now - endPulse st) > MIN_SYNCGAP - JITTER
        \<and> int_of_u32 (now - endPulse st) < MAX_SYNCGAP + JITTER")
      case True
      with assms \<open>newEdge st\<close> rising show ?thesis
        by (auto simp: collectBits_def Let_def set_tm_sec_def)
    next
      case False
      with assms \<open>newEdge st\<close> rising
      have "pulse_ends (st\<lparr>newEdge := False, startPulse := now,
          widthPause := int_of_u32 (now - endPulse st)\<rparr>) now = Inr (r, st')"
        by (auto simp: collectBits_def Let_def)
      from pulse_ends_record [OF this] show ?thesis by simp
    qed
  next
    case False
    with assms \<open>newEdge st\<close>
    have "pulse_ends (st\<lparr>newEdge := False\<rparr>) now = Inr (r, st')"
      by (auto simp: collectBits_def Let_def)
    from pulse_ends_record [OF this] show ?thesis by simp
  qed
qed

lemma loop_without_valid_minute:
  assumes "collectBits st now = Inr (r, st1)" and "\<not> (r \<and> parityOK st1)"
  shows "\<exists>st'. loop st now = Inr st'
     \<and> (r \<longrightarrow> st' = st1\<lparr>serial := serial st1 @ parity_failed_message\<rparr>
            \<and> tm_sec (dcf77Time st') = 0)
     \<and> (dcf77Time st')\<lparr>tm_sec := 0\<rparr> = (dcf77Time st)\<lparr>tm_sec := 0\<rparr>
     \<and> z12 st' = z12 st \<and> dcf77TimeString st' = dcf77TimeString st"
proof (cases r)
  case True
  with assms have l: "loop st now = Inr (st1\<lparr>serial := serial st1 @ parity_failed_message\<rparr>)"
    by (simp add: loop_def serial_print_def)
  from collectBits_record [OF assms(1)] True l show ?thesis by simp
next
  case False
  with assms have l: "loop st now = Inr st1"
    by (simp add: loop_def)
  from collectBits_record [OF assms(1)] False l show ?thesis by simp
qed

lemma step_record:
  assumes "step st e = Inr st'" and "\<not> valid_minute st e"
  shows "(dcf77Time st')\<lparr>tm_sec := 0\<rparr> = (dcf77Time st)\<lparr>tm_sec := 0\<rparr>
     \<and> z12 st' = z12 st \<and> dcf77TimeString st' = dcf77TimeString st"
proof (cases e)
  case (Edge level)
  with assms show ?thesis by (auto simp: handleInterrupt_def)
next
  case (Poll now)
  show ?thesis
  proof (cases "collectBits st now")
    case (Inl f)
    with assms Poll show ?thesis by (simp add: loop_def)
  next
    case (Inr x)
    obtain r st1 where x: "x = (r, st1)" by (cases x)
    have c: "collectBits st now = Inr (r, st1)" using Inr x by simp
    have n: "\<not> (r \<and> parityOK st1)" using assms(2) Poll c by simp
    from loop_without_valid_minute [OF c n] assms(1) Poll show ?thesis by auto
  qed
qed

lemma run_record:
  assumes "run st es = Inr st'" and "no_valid_minute st es"
  shows "(dcf77Time st')\<lparr>tm_sec := 0\<rparr> = (dcf77Time st)\<lparr>tm_sec := 0\<rparr>
     \<and> z12 st' = z12 st \<and> dcf77TimeString st' = dcf77TimeString st"
  using assms
proof (induction es arbitrary: st)
  case Nil
  then show ?case by simp
next
  case (Cons e es)
  show ?case
  proof (cases "step st e")
    case (Inl f)
    with Cons.prems show ?thesis by simp
  next
    case (Inr s)
    with Cons.prems have r: "run s es = Inr st'" and n: "no_valid_minute s es"
      and v: "\<not> valid_minute st e"
      by simp_all
    from Cons.IH [OF r n] step_record [OF Inr v] show ?thesis by simp
  qed
qed

text \<open>
  C9. When a completed minute fails the parity check (\<open>collectBits\<close> reports the start of
  a minute and \<open>parityOK\<close> rejects the buffer), \<open>loop\<close> does not run \<open>decodeBits\<close>: the
  decoder is as \<open>collectBits\<close> left it, with the failure message printed. From there on,
  over every sequence of edges and polls in which no minute is validated, the decoded
  fields of the caller's record (all of \<open>struct tm\<close> but the running second \<open>tm_sec\<close>), the
  time zone and the formatted time string keep the values of the last decoded minute.
\<close>

theorem parity_failure_keeps_record:
  assumes "collectBits st now = Inr (True, st1)" and "\<not> parityOK st1"
    and "run (st1\<lparr>serial := serial st1 @ parity_failed_message\<rparr>) es = Inr st'"
    and "no_valid_minute (st1\<lparr>serial := serial st1 @ parity_failed_message\<rparr>) es"
  shows "loop st now = Inr (st1\<lparr>serial := serial st1 @ parity_failed_message\<rparr>)
     \<and> (dcf77Time st')\<lparr>tm_sec := 0\<rparr> = (dcf77Time st)\<lparr>tm_sec := 0\<rparr>
     \<and> z12 st' = z12 st \<and> dcf77TimeString st' = dcf77TimeString st"
proof -
  let ?s = "st1\<lparr>serial := serial st1 @ parity_failed_message\<rparr>"
  have n: "\<not> (True \<and> parityOK st1)" using assms(2) by simp
  from loop_without_valid_minute [OF assms(1) n]
  have l: "loop st now = Inr ?s"
    and a: "(dcf77Time ?s)\<lparr>tm_sec := 0\<rparr> = (dcf77Time st)\<lparr>tm_sec := 0\<rparr>
      \<and> z12 ?s = z12 st \<and> dcf77TimeString ?s = dcf77TimeString st"
    by auto
  from run_record [OF assms(3,4)] a l show ?thesis by simp
qed

theorem parity_failure_keeps_record_witness:
  "collectBits stale_decoder 1800 =
     Inr (True, stale_decoder\<lparr>newEdge := False, startPulse := 1800, widthPause := 1800,
       seconds := 0, dcf77Time := (dcf77Time stale_decoder)\<lparr>tm_sec := 0\<rparr>\<rparr>)
   \<and> \<not> parityOK (stale_decoder\<lparr>newEdge := False, startPulse := 1800, widthPause := 1800,
       seconds := 0, dcf77Time := (dcf77Time stale_decoder)\<lparr>tm_sec := 0\<rparr>\<rparr>)
   \<and> loop stale_decoder 1800 =
       Inr (stale_decoder\<lparr>newEdge := False, startPulse := 1800, widthPause := 1800,
         seconds := 0, dcf77Time := (dcf77Time stale_decoder)\<lparr>tm_sec := 0\<rparr>,
         serial := parity_failed_message\<rparr>)
   \<and> run (stale_decoder\<lparr>newEdge := False, startPulse := 1800, widthPause := 1800,
         seconds := 0, dcf77Time := (dcf77Time stale_decoder)\<lparr>tm_sec := 0\<rparr>,
         serial := parity_failed_message\<rparr>) [Edge 0, Poll 1900] =
       Inr (stale_decoder\<lparr>edgeMode := 0, newEdge := False, startPulse := 1800,
         endPulse := 1900, widthPulse := 100, widthPause := 1800, seconds := 1,
         dcf77Bits := one_error_bits[0 := CHR ''0''],
         dcf77Time := \<lparr>tm_sec = 1, tm_min = 39, tm_hour = 9, tm_mday = 5, tm_mon = 2,
           tm_year = 116, tm_wday = 6, tm_yday = 0, tm_isdst = 0\<rparr>,
         indicator := True, serial := parity_failed_message @ ''0''\<rparr>)
   \<and> no_valid_minute (stale_decoder\<lparr>newEdge := False, startPulse := 1800,
         widthPause := 1800, seconds := 0,
         dcf77Time := (dcf77Time stale_decoder)\<lparr>tm_sec := 0\<rparr>,
         serial := parity_failed_message\<rparr>) [Edge 0, Poll 1900]
   \<and> dcf77Time stale_decoder = \<lparr>tm_sec = 59, tm_min = 39, tm_hour = 9, tm_mday = 5,
         tm_mon = 2, tm_year = 116, tm_wday = 6, tm_yday = 0, tm_isdst = 0\<rparr>"
proof -
  let ?s1 = "stale_decoder\<lparr>newEdge := False, startPulse := 1800, widthPause := 1800,
       seconds := 0, dcf77Time := (dcf77Time stale_decoder)\<lparr>tm_sec := 0\<rparr>\<rparr>"
  let ?s2 = "stale_decoder\<lparr>newEdge := False, startPulse := 1800, widthPause := 1800,
         seconds := 0, dcf77Time := (dcf77Time stale_decoder)\<lparr>tm_sec := 0\<rparr>,
         serial := parity_failed_message\<rparr>"
  let ?s3 = "handleInterrupt ?s2 0"
  let ?s4 = "stale_decoder\<lparr>edgeMode := 0, newEdge := False, startPulse := 1800,
         endPulse := 1900, widthPulse := 100, widthPause := 1800, seconds := 1,
         dcf77Bits := one_error_bits[0 := CHR ''0''],
         dcf77Time := \<lparr>tm_sec = 1, tm_min = 39, tm_hour = 9, tm_mday = 5, tm_mon = 2,
           tm_year = 116, tm_wday = 6, tm_yday = 0, tm_isdst = 0\<rparr>,
         indicator := True, serial := parity_failed_message @ ''0''\<rparr>"
  have t: "dcf77Time stale_decoder = \<lparr>tm_sec = 59, tm_min = 39, tm_hour = 9, tm_mday = 5,
         tm_mon = 2, tm_year = 116, tm_wday = 6, tm_yday = 0, tm_isdst = 0\<rparr>"
    by (simp add: stale_decoder_def init_decoder_def)
  have c: "collectBits stale_decoder 1800 = Inr (True, ?s1)"
    by (simp add: collectBits_def Let_def set_tm_sec_def MIN_SYNCGAP_def MAX_SYNCGAP_def
        JITTER_def EDGE_RISING_def stale_decoder_def init_decoder_def int_of_u32_def)
  have p: "\<not> parityOK ?s1"
    by (simp add: parityOK_def parity_loop.simps stale_decoder_def init_decoder_def
        one_error_bits_def int_of_char_def c_rem_def)
  have e: "?s1\<lparr>serial := serial ?s1 @ parity_failed_message\<rparr> = ?s2"
    by (simp add: stale_decoder_def init_decoder_def)
  have f: "newEdge ?s3" "edgeMode ?s3 = EDGE_FALLING" "synchronized ?s3"
    "0 \<le> seconds ?s3" "seconds ?s3 < int (length (dcf77Bits ?s3))"
    "seconds ?s3 < INT_MAX" "tm_sec (dcf77Time ?s3) < INT_MAX"
    by (simp_all add: handleInterrupt_def EDGE_FALLING_def INT_MAX_def stale_decoder_def
        init_decoder_def one_error_bits_def)
  have w: "(100::int) = int_of_u32 (1900 - startPulse ?s3)"
    by (simp add: handleInterrupt_def int_of_u32_def)
  have c3: "collectBits ?s3 1900 = Inr (False, ?s4)"
    unfolding pulse_end_synchronized [OF f(1-3) w f(4-7)]
    by (simp add: handleInterrupt_def stale_decoder_def init_decoder_def)
  have l3: "loop ?s3 1900 = Inr ?s4"
    unfolding loop_def c3 by simp
  have r: "run ?s2 [Edge 0, Poll 1900] = Inr ?s4"
    by (simp add: l3)
  have n: "no_valid_minute ?s2 [Edge 0, Poll 1900]"
    by (simp add: c3 l3)
  have l: "loop stale_decoder 1800 = Inr ?s2"
    using parity_failure_keeps_record [OF c p r [folded e] n [folded e]] e by simp
  from c p l r n t show ?thesis by simp
qed

lemma collectBits_ready:
  assumes "collectBits st now = Inr (r, st')" and "isReady st"
  shows "isReady st'"
proof -
  have a: "dcf77Bits st ! 58 \<noteq> CHR ''P''"
    using assms(2) by (simp add: isReady_def split: if_splits)
  have u: "(dcf77Bits st)[n := c] ! 58 \<noteq> CHR ''P''" if "c \<noteq> CHR ''P''" for n c
    using a that
    by (cases "n = 58"; cases "58 < length (dcf77Bits st)") (simp_all add: list_update_beyond)
  from collectBits_bits [OF assms(1)]
  have "dcf77Bits st' ! 58 \<noteq> CHR ''P''"
    using a u [of "CHR ''0''"] u [of "CHR ''1''"] by auto
  then show ?thesis by (simp add: isReady_def)
qed

lemma loop_bits:
  assumes "loop st now = Inr st'"
  shows "\<exists>r st1. collectBits st now = Inr (r, st1) \<and> dcf77Bits st' = dcf77Bits st1"
proof (cases "collectBits st now")
  case (Inl e)
  with assms show ?thesis by (simp add: loop_def)
next
  case (Inr x)
  obtain r st1 where x: "x = (r, st1)" by (cases x)
  show ?thesis
  proof (cases "r \<and> parityOK st1")
    case True
    show ?thesis
    proof (cases "decodeBits st1")
      case (Inl e)
      with assms Inr x True show ?thesis by (simp add: loop_def)
    next
      case d: (Inr st2)
      with assms Inr x True
      have "dcf77Bits st' = dcf77Bits st2"
        by (auto simp: loop_def printDateTime_def serial_println_def split: if_splits)
      with decodeBits_bits [OF d] Inr x show ?thesis by simp
    qed
  next
    case False
    with assms Inr x have "dcf77Bits st' = dcf77Bits st1"
      by (auto simp: loop_def serial_print_def split: if_splits)
    with Inr x show ?thesis by simp
  qed
qed

lemma loop_ready:
  assumes "loop st now = Inr st'" and "isReady st"
  shows "isReady st'"
proof -
  obtain r st1 where c: "collectBits st now = Inr (r, st1)"
    and b: "dcf77Bits st' = dcf77Bits st1"
    using loop_bits [OF assms(1)] by blast
  have "isReady st1" by (rule collectBits_ready [OF c assms(2)])
  with b show ?thesis by (simp add: isReady_def)
qed

lemma step_ready:
  assumes "step st e = Inr st'" and "isReady st"
  shows "isReady st'"
proof (cases e)
  case (Edge level)
  with assms show ?thesis by (auto simp: handleInterrupt_def isReady_def)
next
  case (Poll now)
  with assms loop_ready [of st now st'] show ?thesis by simp
qed

text \<open>
  C4. The claim: \<open>isReady\<close> is true if and only if a fresh, parity-valid telegram is
  available; it becomes false again, and it is never true for a telegram that failed the
  parity check. The source, as its comment says, only tests whether the last slot of the
  buffer still holds the 'P' of the template. What holds: \<open>isReady\<close> is true if and only if
  slot 58 is not 'P'; no bit written later restores the 'P', so once true it stays true
  over every further sequence of edges and polls, whatever the parity check says.
\<close>

theorem isReady_latches:
  "isReady st = (dcf77Bits st ! 58 \<noteq> CHR ''P'')
   \<and> (isReady st \<longrightarrow> run st es = Inr st' \<longrightarrow> isReady st')"
proof -
  have "run st es = Inr st' \<Longrightarrow> isReady st \<Longrightarrow> isReady st'"
  proof (induction es arbitrary: st)
    case Nil
    then show ?case by simp
  next
    case (Cons e es)
    show ?case
    proof (cases "step st e")
      case (Inl f)
      with Cons.prems show ?thesis by simp
    next
      case (Inr s)
      with Cons.prems have "run s es = Inr st'" by simp
      moreover have "isReady s" by (rule step_ready [OF Inr Cons.prems(2)])
      ultimately show ?thesis by (rule Cons.IH)
    qed
  qed
  then show ?thesis by (auto simp: isReady_def)
qed

theorem isReady_latches_witness:
  "isReady stale_decoder
   \<and> run stale_decoder [Poll 1800, Edge 0] =
       Inr (stale_decoder\<lparr>edgeMode := 0, newEdge := True, startPulse := 1800,
         widthPause := 1800, seconds := 0,
         dcf77Time := (dcf77Time stale_decoder)\<lparr>tm_sec := 0\<rparr>,
         serial := parity_failed_message\<rparr>)
   \<and> isReady (stale_decoder\<lparr>edgeMode := 0, newEdge := True, startPulse := 1800,
         widthPause := 1800, seconds := 0,
         dcf77Time := (dcf77Time stale_decoder)\<lparr>tm_sec := 0\<rparr>,
         serial := parity_failed_message\<rparr>)"
proof -
  let ?s1 = "stale_decoder\<lparr>newEdge := False, startPulse := 1800, widthPause := 1800,
       seconds := 0, dcf77Time := (dcf77Time stale_decoder)\<lparr>tm_sec := 0\<rparr>\<rparr>"
  let ?s = "stale_decoder\<lparr>edgeMode := 0, newEdge := True, startPulse := 1800,
         widthPause := 1800, seconds := 0,
         dcf77Time := (dcf77Time stale_decoder)\<lparr>tm_sec := 0\<rparr>,
         serial := parity_failed_message\<rparr>"
  have i: "isReady stale_decoder"
    by (simp add: isReady_def stale_decoder_def init_decoder_def one_error_bits_def)
  have c: "collectBits stale_decoder 1800 = Inr (True, ?s1)"
    by (simp add: collectBits_def Let_def set_tm_sec_def MIN_SYNCGAP_def MAX_SYNCGAP_def
        JITTER_def EDGE_RISING_def stale_decoder_def init_decoder_def int_of_u32_def)
  have p: "parityOK ?s1 = False"
    by (simp add: parityOK_def parity_loop.simps stale_decoder_def init_decoder_def
        one_error_bits_def int_of_char_def c_rem_def)
  have e: "serial stale_decoder = []"
    by (simp add: stale_decoder_def init_decoder_def)
  have l: "loop stale_decoder 1800 = Inr (?s1\<lparr>serial := parity_failed_message\<rparr>)"
    unfolding loop_def c by (simp add: p serial_print_def e)
  have r: "run stale_decoder [Poll 1800, Edge 0] = Inr ?s"
    by (simp add: l handleInterrupt_def)
  show ?thesis
    using isReady_latches [of stale_decoder "[Poll 1800, Edge 0]" ?s] i r
    by simp
qed

text \<open>
  The minute of \<open>stale_decoder\<close> arrived with a wrong bit: \<open>loop\<close> reports the parity
  failure, and \<open>isReady\<close> is true before and after.
\<close>

theorem isReady_after_parity_failure_counterexample:
  "isReady stale_decoder
   \<and> \<not> parityOK stale_decoder
   \<and> loop stale_decoder 1800 =
       Inr (stale_decoder\<lparr>newEdge := False, startPulse := 1800, widthPause := 1800,
         seconds := 0, dcf77Time := (dcf77Time stale_decoder)\<lparr>tm_sec := 0\<rparr>,
         serial := parity_failed_message\<rparr>)
   \<and> isReady (stale_decoder\<lparr>newEdge := False, startPulse := 1800, widthPause := 1800,
         seconds := 0, dcf77Time := (dcf77Time stale_decoder)\<lparr>tm_sec := 0\<rparr>,
         serial := parity_failed_message\<rparr>)"
proof -
  let ?s1 = "stale_decoder\<lparr>newEdge := False, startPulse := 1800, widthPause := 1800,
       seconds := 0, dcf77Time := (dcf77Time stale_decoder)\<lparr>tm_sec := 0\<rparr>\<rparr>"
  have b: "dcf77Bits stale_decoder ! 58 = CHR ''1''"
    by (simp add: stale_decoder_def one_error_bits_def)
  have i: "isReady stale_decoder"
    by (simp add: isReady_def b)
  have q: "\<not> parityOK stale_decoder"
    by (simp add: parityOK_def parity_loop.simps stale_decoder_def one_error_bits_def
        int_of_char_def c_rem_def)
  have c: "collectBits stale_decoder 1800 = Inr (True, ?s1)"
    by (simp add: collectBits_def Let_def set_tm_sec_def MIN_SYNCGAP_def MAX_SYNCGAP_def
        JITTER_def EDGE_RISING_def stale_decoder_def init_decoder_def int_of_u32_def)
  have p: "parityOK ?s1 = False"
    using q by (simp add: parityOK_def)
  have e: "serial stale_decoder = []"
    by (simp add: stale_decoder_def init_decoder_def)
  have l: "loop stale_decoder 1800 = Inr (?s1\<lparr>serial := parity_failed_message\<rparr>)"
    unfolding loop_def c by (simp add: p serial_print_def e)
  have j: "isReady (?s1\<lparr>serial := parity_failed_message\<rparr>)"
    by (simp add: isReady_def b)
  from i q l j show ?thesis by simp
qed

end
